theory Spec2Isabelle
  imports
    Complex_Main
    "HOL-Library.Sublist"
    "HOL-Library.Multiset"
    "HOL-Library.Char_ord"
    "HOL-Library.List_Lexorder"
    "HOL-Library.Product_Lexorder"
begin

section \<open>The SenseBox dashboard script (\<^verbatim>\<open>src/app/app.py\<close>)\<close>

text \<open>
  The script runs once, top to bottom: it opens a database connection, fetches the
  metadata of one SenseBox, builds \<^verbatim>\<open>sensor_details\<close>, fetches and inserts the series
  of every sensor, then reads the table back and builds one graph per sensor.

  The embedding follows the script line by line. Everything the script receives from
  outside is a field of the record \<open>env\<close>: the two HTTP responses, the environment
  variable \<^verbatim>\<open>SENSEBOX_ID\<close>, what the database does with a value, and the float
  operations of the Python runtime (floats themselves are the type parameter \<open>'f\<close>).
  Every exception the script can meet is a value of \<open>exn\<close>.
\<close>

subsection \<open>Decoded JSON\<close>

text \<open>
  What \<^verbatim>\<open>response.json()\<close> returns. An object is the list of its members in the order
  of the text; \<open>dict_get\<close> reads it as the decoder does (of a repeated name the last
  value counts).
\<close>

datatype 'f json =
    JNull
  | JBool bool
  | JInt int
  | JFloat 'f
  | JStr string
  | JArr "'f json list"
  | JObj "(string \<times> 'f json) list"

datatype exn =
    TypeError
  | ValueError
  | KeyError
  | AttributeError
  | OverflowError
  | RequestException
  | Psycopg2Error
  | SystemExit nat

datatype 'f response = RequestFailed | Body "'f json"

text \<open>
  \<open>RequestFailed\<close> stands for every \<^verbatim>\<open>requests.exceptions.RequestException\<close> of
  \<^verbatim>\<open>requests.get\<close>, \<^verbatim>\<open>raise_for_status\<close> and \<^verbatim>\<open>json\<close>: no connection, a timeout, a
  4xx or 5xx status, a body that is not JSON.
\<close>

text \<open>
  Modelled from the spec: the declaration of the table \<^verbatim>\<open>sensor_data\<close> (\<^verbatim>\<open>init.sql\<close>) is
  not part of the sources. The spec gives the columns
  \<^verbatim>\<open>(timestamp timestamptz, box_id text, sensor_id text, measurement double, unit text,
  sensor_type text, icon text)\<close> with a unique constraint on
  \<^verbatim>\<open>(timestamp, box_id, sensor_id)\<close>. Its data model marks the measurement value and
  the icon as nullable and makes the three columns of the constraint the identity of a
  measurement: these three are taken as not null, the other columns take a \<^verbatim>\<open>NULL\<close>.
  A \<^verbatim>\<open>timestamptz\<close> is an instant, here an integer; \<open>None\<close> is SQL's \<^verbatim>\<open>NULL\<close>.
\<close>

record 'f sensor_data =
  timestamp :: int
  box_id :: string
  sensor_id :: string
  measurement :: "'f option"
  unit :: "string option"
  sensor_type :: "string option"
  icon :: "string option"

record 'f env =
  SENSEBOX_ID :: "string option"
  meta_response :: "'f response"
  data_response :: "'f json \<Rightarrow> 'f response"
  float_of_str :: "string \<Rightarrow> 'f option"
  float_of_int :: "int \<Rightarrow> 'f option"
  float_nonzero :: "'f \<Rightarrow> bool"
  float_isnan :: "'f \<Rightarrow> bool"
  key_eq :: "'f json \<Rightarrow> 'f json \<Rightarrow> bool"
  connect_insert :: bool
  timestamptz_in :: "'f json \<Rightarrow> int option"
  text_in :: "'f json \<Rightarrow> string option"
  exec_error :: "'f json \<Rightarrow> bool"
  connect_read :: bool
  read_error :: bool

text \<open>
  \<^item> \<open>SENSEBOX_ID\<close>: \<^verbatim>\<open>os.getenv('SENSEBOX_ID')\<close>, \<open>None\<close> when the variable is unset.
  \<^item> \<open>meta_response\<close>, \<open>data_response sensor_id\<close>: what the two \<^verbatim>\<open>requests.get\<close> calls
    (lines 32 to 34 and 59 to 61) produce.
  \<^item> \<open>float_of_str\<close>: \<^verbatim>\<open>float(s)\<close> of a string, \<open>None\<close> for \<^verbatim>\<open>ValueError\<close>;
    \<open>float_of_int\<close>: \<^verbatim>\<open>float(n)\<close> of an integer, \<open>None\<close> for \<^verbatim>\<open>OverflowError\<close>;
    \<open>float_nonzero\<close>: truth value of a float; \<open>float_isnan\<close>: what \<^verbatim>\<open>dropna\<close> tests.
  \<^item> \<open>key_eq\<close>: equality of dictionary keys (Python identifies \<^verbatim>\<open>1\<close>, \<^verbatim>\<open>1.0\<close> and
    \<^verbatim>\<open>True\<close>).
  \<^item> \<open>connect_insert\<close>: whether the connection and its cursor are there after lines 27
    and 28 (otherwise \<^verbatim>\<open>psycopg2.Error\<close> is raised there); \<open>connect_read\<close>: the same for
    line 126; \<open>read_error\<close>: whether \<^verbatim>\<open>pd.read_sql_query\<close> raises (line 135).
  \<^item> \<open>timestamptz_in\<close>, \<open>text_in\<close>: the value the database stores for a Python value
    passed as a query parameter, \<open>None\<close> when the statement raises instead (the value
    cannot be adapted, or the server rejects it).
  \<^item> \<open>exec_error sensor_id\<close>: \<^verbatim>\<open>executemany\<close> for this sensor raises before any tuple
    is executed (connection lost, transaction already failed).
\<close>

subsection \<open>Python operations on decoded values\<close>

definition dict_get :: "(string \<times> 'v) list \<Rightarrow> string \<Rightarrow> 'v option" where
  "dict_get kvs k = map_of (rev kvs) k"

text \<open>
  \<^verbatim>\<open>Series.unique()\<close> and the key order of a dictionary: the distinct elements, in the
  order of their first occurrence.
\<close>

fun unique_from :: "'a list \<Rightarrow> 'a list \<Rightarrow> 'a list" where
  "unique_from seen [] = []"
| "unique_from seen (x # xs) =
     (if x \<in> set seen then unique_from seen xs else x # unique_from (x # seen) xs)"

definition unique :: "'a list \<Rightarrow> 'a list" where
  "unique xs = unique_from [] xs"

text \<open>\<^verbatim>\<open>k in v\<close> for a string \<open>k\<close>.\<close>

fun py_in :: "string \<Rightarrow> 'f json \<Rightarrow> exn + bool" where
  "py_in k (JObj kvs) = Inr (k \<in> set (map fst kvs))"
| "py_in k (JArr xs) = Inr (JStr k \<in> set xs)"
| "py_in k (JStr s) = Inr (sublist k s)"
| "py_in k JNull = Inl TypeError"
| "py_in k (JBool b) = Inl TypeError"
| "py_in k (JInt n) = Inl TypeError"
| "py_in k (JFloat x) = Inl TypeError"

text \<open>\<^verbatim>\<open>v[k]\<close> for a string \<open>k\<close>.\<close>

fun py_getitem :: "'f json \<Rightarrow> string \<Rightarrow> exn + 'f json" where
  "py_getitem (JObj kvs) k = (case dict_get kvs k of None \<Rightarrow> Inl KeyError | Some v \<Rightarrow> Inr v)"
| "py_getitem JNull k = Inl TypeError"
| "py_getitem (JBool b) k = Inl TypeError"
| "py_getitem (JInt n) k = Inl TypeError"
| "py_getitem (JFloat x) k = Inl TypeError"
| "py_getitem (JStr s) k = Inl TypeError"
| "py_getitem (JArr xs) k = Inl TypeError"

text \<open>\<^verbatim>\<open>v.get(k, default)\<close>: only a dictionary has the method.\<close>

fun py_get :: "'f json \<Rightarrow> string \<Rightarrow> 'f json \<Rightarrow> exn + 'f json" where
  "py_get (JObj kvs) k d = Inr (case dict_get kvs k of None \<Rightarrow> d | Some v \<Rightarrow> v)"
| "py_get JNull k d = Inl AttributeError"
| "py_get (JBool b) k d = Inl AttributeError"
| "py_get (JInt n) k d = Inl AttributeError"
| "py_get (JFloat x) k d = Inl AttributeError"
| "py_get (JStr s) k d = Inl AttributeError"
| "py_get (JArr xs) k d = Inl AttributeError"

text \<open>The truth value of \<open>v\<close> in \<^verbatim>\<open>if v\<close> and \<^verbatim>\<open>not v\<close>.\<close>

fun py_bool :: "'f env \<Rightarrow> 'f json \<Rightarrow> bool" where
  "py_bool e JNull = False"
| "py_bool e (JBool b) = b"
| "py_bool e (JInt n) = (n \<noteq> 0)"
| "py_bool e (JFloat x) = float_nonzero e x"
| "py_bool e (JStr s) = (s \<noteq> [])"
| "py_bool e (JArr xs) = (xs \<noteq> [])"
| "py_bool e (JObj kvs) = (kvs \<noteq> [])"

text \<open>
  The elements \<^verbatim>\<open>for x in v\<close> runs through: of a list its elements, of a dictionary its
  keys, of a string its characters.
\<close>

fun py_iter :: "'f json \<Rightarrow> exn + 'f json list" where
  "py_iter (JArr xs) = Inr xs"
| "py_iter (JObj kvs) = Inr (map JStr (unique (map fst kvs)))"
| "py_iter (JStr s) = Inr (map (\<lambda>c. JStr [c]) s)"
| "py_iter JNull = Inl TypeError"
| "py_iter (JBool b) = Inl TypeError"
| "py_iter (JInt n) = Inl TypeError"
| "py_iter (JFloat x) = Inl TypeError"

text \<open>\<^verbatim>\<open>float(v)\<close>.\<close>

fun py_float :: "'f env \<Rightarrow> 'f json \<Rightarrow> exn + 'f" where
  "py_float e (JStr s) = (case float_of_str e s of None \<Rightarrow> Inl ValueError | Some x \<Rightarrow> Inr x)"
| "py_float e (JInt n) = (case float_of_int e n of None \<Rightarrow> Inl OverflowError | Some x \<Rightarrow> Inr x)"
| "py_float e (JBool b) =
     (case float_of_int e (if b then 1 else 0) of None \<Rightarrow> Inl OverflowError | Some x \<Rightarrow> Inr x)"
| "py_float e (JFloat x) = Inr x"
| "py_float e JNull = Inl TypeError"
| "py_float e (JArr xs) = Inl TypeError"
| "py_float e (JObj kvs) = Inl TypeError"

text \<open>Lists and dictionaries cannot be dictionary keys.\<close>

fun hashable :: "'f json \<Rightarrow> bool" where
  "hashable (JArr xs) = False"
| "hashable (JObj kvs) = False"
| "hashable v = True"

text \<open>\<^verbatim>\<open>d[k] = v\<close>: a key already there keeps its place and takes the new value.\<close>

fun dict_set :: "('k \<Rightarrow> 'k \<Rightarrow> bool) \<Rightarrow> 'k \<Rightarrow> 'v \<Rightarrow> ('k \<times> 'v) list \<Rightarrow> ('k \<times> 'v) list" where
  "dict_set eq k v [] = [(k, v)]"
| "dict_set eq k v ((k', v') # kvs) =
     (if eq k' k then (k', v) # kvs else (k', v') # dict_set eq k v kvs)"

subsection \<open>Metadata: validation and \<^verbatim>\<open>sensor_details\<close> (lines 36 to 48)\<close>

text \<open>Line 36: \<^verbatim>\<open>not metadata or 'sensors' not in metadata\<close>.\<close>

definition metadata_invalid :: "'f env \<Rightarrow> 'f json \<Rightarrow> exn + bool" where
  "metadata_invalid e metadata =
     (if \<not> py_bool e metadata then Inr True
      else case py_in ''sensors'' metadata of
             Inl x \<Rightarrow> Inl x
           | Inr b \<Rightarrow> Inr (\<not> b))"

record 'f details =
  type :: "'f json"
  unit :: "'f json"
  icon :: "'f json"

text \<open>
  Lines 42 to 46, for one \<open>s\<close> that passed the filter: the key \<^verbatim>\<open>s['_id']\<close> and the
  dictionary of its details.
\<close>

definition sensor_entry :: "'f json \<Rightarrow> exn + ('f json \<times> 'f details)" where
  "sensor_entry s =
     (case py_getitem s ''_id'' of
        Inl x \<Rightarrow> Inl x
      | Inr k \<Rightarrow>
     (case py_get s ''sensorType'' (JStr ''unknown'') of
        Inl x \<Rightarrow> Inl x
      | Inr t \<Rightarrow>
     (case py_get s ''unit'' (JStr '''') of
        Inl x \<Rightarrow> Inl x
      | Inr u \<Rightarrow>
     (case py_get s ''icon'' JNull of
        Inl x \<Rightarrow> Inl x
      | Inr i \<Rightarrow>
        if hashable k then Inr (k, \<lparr>type = t, unit = u, icon = i\<rparr>)
        else Inl TypeError))))"

text \<open>The comprehension of lines 41 to 48 over the elements of \<^verbatim>\<open>metadata['sensors']\<close>.\<close>

fun comprehension ::
  "'f env \<Rightarrow> 'f json list \<Rightarrow> ('f json \<times> 'f details) list \<Rightarrow> exn + ('f json \<times> 'f details) list"
where
  "comprehension e [] acc = Inr acc"
| "comprehension e (s # ss) acc =
     (case py_in ''_id'' s of
        Inl x \<Rightarrow> Inl x
      | Inr False \<Rightarrow> comprehension e ss acc
      | Inr True \<Rightarrow>
          (case sensor_entry s of
             Inl x \<Rightarrow> Inl x
           | Inr (k, d) \<Rightarrow> comprehension e ss (dict_set (key_eq e) k d acc)))"

definition sensor_details :: "'f env \<Rightarrow> 'f json \<Rightarrow> exn + ('f json \<times> 'f details) list" where
  "sensor_details e metadata =
     (case py_getitem metadata ''sensors'' of
        Inl x \<Rightarrow> Inl x
      | Inr v \<Rightarrow>
     (case py_iter v of
        Inl x \<Rightarrow> Inl x
      | Inr ss \<Rightarrow> comprehension e ss []))"

subsection \<open>What the script prints\<close>

text \<open>One constructor for each \<^verbatim>\<open>print\<close> of the script, in the order of the lines.\<close>

datatype 'f event =
    StartingInitialDataLoad
  | FetchingMetadata
  | ErrorNoSensors
  | FetchingData "'f json"
  | WarningCouldNotConvert "'f json" "'f json"
  | Inserted "'f json" nat
  | NoValidDataPoints "'f json"
  | NoDataReturned "'f json"
  | WarningFailedToFetch "'f json"
  | WarningUnexpected "'f json" exn
  | InitialDataLoadComplete
  | ErrorApiRequest
  | ErrorDatabase
  | ErrorUnexpected exn
  | InsertConnectionClosed
  | FetchingFromDatabase
  | FetchedRecords nat
  | ErrorFetchingForDashboard
  | ReadConnectionClosed
  | GeneratingGraphs "string list"
  | NoPlottableData string
  | NoDataRetrieved

text \<open>
  Lines 37, 82, 100, 102, 107, 110, 113, 139 and 142 print to \<^verbatim>\<open>sys.stderr\<close>; of these
  the ones whose text starts with \<^verbatim>\<open>Warning:\<close> are the warnings.
\<close>

fun is_warning :: "'f event \<Rightarrow> bool" where
  "is_warning (WarningCouldNotConvert sid item) = True"
| "is_warning (WarningFailedToFetch sid) = True"
| "is_warning (WarningUnexpected sid x) = True"
| "is_warning ev = False"

subsection \<open>One data point (lines 68 to 82)\<close>

type_synonym 'f params =
  "'f json \<times> string option \<times> 'f json \<times> 'f option \<times> 'f json \<times> 'f json \<times> 'f json"

text \<open>Line 71: \<^verbatim>\<open>float(item['value']) if item['value'] is not None else None\<close>.\<close>

definition measurement_val :: "'f env \<Rightarrow> 'f json \<Rightarrow> exn + 'f option" where
  "measurement_val e v =
     (if v \<noteq> JNull
      then (case py_float e v of Inl x \<Rightarrow> Inl x | Inr f \<Rightarrow> Inr (Some f))
      else Inr None)"

datatype 'f point = Appended "'f params" | Skipped | Warned | Raised exn

text \<open>
  What one pass of the loop body does with \<open>item\<close>: append a tuple, skip the item
  without a word (the \<^verbatim>\<open>if\<close> of line 68 has no \<^verbatim>\<open>else\<close>), skip it with the warning of
  line 82, or leave the loop with an exception. The handler of line 81 takes
  \<^verbatim>\<open>ValueError\<close> and \<^verbatim>\<open>TypeError\<close> only, and its own message reads \<^verbatim>\<open>item['value']\<close> and
  \<^verbatim>\<open>item['createdAt']\<close> again: where one of these subscripts was what raised, it
  raises once more, out of the handler.
\<close>

definition process_item ::
  "'f env \<Rightarrow> 'f json \<Rightarrow> 'f details \<Rightarrow> 'f json \<Rightarrow> 'f point"
where
  "process_item e sid d item =
     (case py_in ''createdAt'' item of
        Inl x \<Rightarrow> Raised x
      | Inr False \<Rightarrow> Skipped
      | Inr True \<Rightarrow>
     (case py_in ''value'' item of
        Inl x \<Rightarrow> Raised x
      | Inr False \<Rightarrow> Skipped
      | Inr True \<Rightarrow>
     (case py_getitem item ''value'' of
        Inl x \<Rightarrow> Raised x
      | Inr v \<Rightarrow>
     (case measurement_val e v of
        Inl x \<Rightarrow>
          if x = ValueError \<or> x = TypeError
          then (case py_getitem item ''createdAt'' of
                  Inl y \<Rightarrow> Raised y
                | Inr ts \<Rightarrow> Warned)
          else Raised x
      | Inr m \<Rightarrow>
          (case py_getitem item ''createdAt'' of
             Inl x \<Rightarrow> Raised x
           | Inr ts \<Rightarrow>
               Appended (ts, SENSEBOX_ID e, sid, m,
                         details.unit d, details.type d, details.icon d))))))"

text \<open>
  The loop of lines 65 to 82: the messages printed, and either the exception that
  ended the loop or the finished list \<^verbatim>\<open>data_to_insert\<close>.
\<close>

fun data_to_insert ::
  "'f env \<Rightarrow> 'f json \<Rightarrow> 'f details \<Rightarrow> 'f json list \<Rightarrow> 'f event list \<times> (exn + 'f params list)"
where
  "data_to_insert e sid d [] = ([], Inr [])"
| "data_to_insert e sid d (item # items) =
     (case process_item e sid d item of
        Raised x \<Rightarrow> ([], Inl x)
      | Skipped \<Rightarrow> data_to_insert e sid d items
      | Warned \<Rightarrow>
          (case data_to_insert e sid d items of
             (evs, r) \<Rightarrow> (WarningCouldNotConvert sid item # evs, r))
      | Appended p \<Rightarrow>
          (case data_to_insert e sid d items of
             (evs, Inl x) \<Rightarrow> (evs, Inl x)
           | (evs, Inr ps) \<Rightarrow> (evs, Inr (p # ps))))"

subsection \<open>The insert connection (lines 84 to 92)\<close>

text \<open>
  A connection is the table as committed and the rows inserted by the open
  transaction. \<^verbatim>\<open>commit\<close> makes the latter part of the table; closing the connection
  drops them.
\<close>

record 'f connection =
  table :: "'f sensor_data list"
  pending :: "'f sensor_data list"

text \<open>The columns of \<^verbatim>\<open>ON CONFLICT (timestamp, box_id, sensor_id)\<close>.\<close>

definition conflict_target :: "'f sensor_data \<Rightarrow> int \<times> string \<times> string" where
  "conflict_target r = (timestamp r, box_id r, sensor_id r)"

text \<open>
  The row the seven \<^verbatim>\<open>%s\<close> of the statement make of a tuple; \<open>None\<close> when the statement
  raises. Python's \<^verbatim>\<open>None\<close> is sent as \<^verbatim>\<open>NULL\<close>, which the three key columns refuse.
\<close>

definition sql_text :: "'f env \<Rightarrow> 'f json \<Rightarrow> string option option" where
  "sql_text e v =
     (if v = JNull then Some None
      else case text_in e v of None \<Rightarrow> None | Some s \<Rightarrow> Some (Some s))"

definition sql_row :: "'f env \<Rightarrow> 'f params \<Rightarrow> 'f sensor_data option" where
  "sql_row e p =
     (case p of (ts, box, sid, m, u, t, i) \<Rightarrow>
     (case (if ts = JNull then None else timestamptz_in e ts) of
        None \<Rightarrow> None
      | Some ts' \<Rightarrow>
     (case box of
        None \<Rightarrow> None
      | Some box' \<Rightarrow>
     (case (if sid = JNull then None else text_in e sid) of
        None \<Rightarrow> None
      | Some sid' \<Rightarrow>
     (case sql_text e u of
        None \<Rightarrow> None
      | Some u' \<Rightarrow>
     (case sql_text e t of
        None \<Rightarrow> None
      | Some t' \<Rightarrow>
     (case sql_text e i of
        None \<Rightarrow> None
      | Some i' \<Rightarrow>
          Some \<lparr>timestamp = ts', box_id = box', sensor_id = sid', measurement = m,
                unit = u', sensor_type = t', icon = i'\<rparr>)))))))"

text \<open>
  The statement of lines 86 to 90 for one tuple: the row is added unless a row with the
  same three key columns is there already, committed or not; \<open>None\<close> when it raises.
\<close>

definition insert_query :: "'f env \<Rightarrow> 'f params \<Rightarrow> 'f connection \<Rightarrow> 'f connection option" where
  "insert_query e p conn =
     (case sql_row e p of
        None \<Rightarrow> None
      | Some r \<Rightarrow>
          Some (if conflict_target r \<in> set (map conflict_target (table conn @ pending conn))
                then conn
                else conn\<lparr>pending := pending conn @ [r]\<rparr>))"

text \<open>
  \<^verbatim>\<open>cursor_insert.executemany(insert_query, data_to_insert)\<close>: the statement once for each
  tuple, in order; the first tuple that raises ends the call, and the rows inserted
  before it stay in the open transaction.
\<close>

fun executemany :: "'f env \<Rightarrow> 'f params list \<Rightarrow> 'f connection \<Rightarrow> exn option \<times> 'f connection" where
  "executemany e [] conn = (None, conn)"
| "executemany e (p # ps) conn =
     (case insert_query e p conn of
        None \<Rightarrow> (Some Psycopg2Error, conn)
      | Some conn' \<Rightarrow> executemany e ps conn')"

definition commit :: "'f connection \<Rightarrow> 'f connection" where
  "commit conn = \<lparr>table = table conn @ pending conn, pending = []\<rparr>"

subsection \<open>One sensor (lines 52 to 102)\<close>

text \<open>
  The \<^verbatim>\<open>try\<close> block of lines 59 to 97: the exception that ended it, if any, what it
  printed, and the connection after it.
\<close>

definition sensor_try ::
  "'f env \<Rightarrow> 'f json \<Rightarrow> 'f details \<Rightarrow> 'f connection \<Rightarrow> exn option \<times> 'f event list \<times> 'f connection"
where
  "sensor_try e sid d conn =
     (case data_response e sid of
        RequestFailed \<Rightarrow> (Some RequestException, [], conn)
      | Body sensor_data \<Rightarrow>
          if py_bool e sensor_data then
            (case py_iter sensor_data of
               Inl x \<Rightarrow> (Some x, [], conn)
             | Inr items \<Rightarrow>
                 (case data_to_insert e sid d items of
                    (evs, Inl x) \<Rightarrow> (Some x, evs, conn)
                  | (evs, Inr ps) \<Rightarrow>
                      if ps \<noteq> [] then
                        if exec_error e sid then (Some Psycopg2Error, evs, conn)
                        else
                          (case executemany e ps conn of
                             (Some x, conn') \<Rightarrow> (Some x, evs, conn')
                           | (None, conn') \<Rightarrow>
                               (None, evs @ [Inserted sid (length ps)], commit conn'))
                      else (None, evs @ [NoValidDataPoints sid], conn)))
          else (None, [NoDataReturned sid], conn))"

text \<open>
  One pass of the loop of line 51: the message of line 52, the \<^verbatim>\<open>try\<close> block, and the two
  handlers of lines 99 to 102, which print a warning and let the loop go on.
\<close>

definition process_sensor ::
  "'f env \<Rightarrow> 'f json \<times> 'f details \<Rightarrow> 'f connection \<Rightarrow> 'f event list \<times> 'f connection"
where
  "process_sensor e kd conn =
     (case kd of (sid, d) \<Rightarrow>
     (case sensor_try e sid d conn of
        (None, evs, conn') \<Rightarrow> (FetchingData sid # evs, conn')
      | (Some RequestException, evs, conn') \<Rightarrow>
          (FetchingData sid # evs @ [WarningFailedToFetch sid], conn')
      | (Some x, evs, conn') \<Rightarrow>
          (FetchingData sid # evs @ [WarningUnexpected sid x], conn')))"

fun sensor_loop ::
  "'f env \<Rightarrow> ('f json \<times> 'f details) list \<Rightarrow> 'f connection \<Rightarrow> 'f event list \<times> 'f connection"
where
  "sensor_loop e [] conn = ([], conn)"
| "sensor_loop e (kd # kds) conn =
     (case process_sensor e kd conn of
        (evs, conn') \<Rightarrow>
          (case sensor_loop e kds conn' of
             (evs', conn'') \<Rightarrow> (evs @ evs', conn'')))"

subsection \<open>The initial data load (lines 24 to 119)\<close>

text \<open>
  The \<^verbatim>\<open>try\<close> block from line 31 on, with the connection of line 27 open.
  \<^verbatim>\<open>sys.exit(1)\<close> of line 38 raises \<^verbatim>\<open>SystemExit\<close> inside the block.
\<close>

definition load_body :: "'f env \<Rightarrow> 'f connection \<Rightarrow> exn option \<times> 'f event list \<times> 'f connection" where
  "load_body e conn =
     (case meta_response e of
        RequestFailed \<Rightarrow> (Some RequestException, [FetchingMetadata], conn)
      | Body metadata \<Rightarrow>
     (case metadata_invalid e metadata of
        Inl x \<Rightarrow> (Some x, [FetchingMetadata], conn)
      | Inr True \<Rightarrow> (Some (SystemExit 1), [FetchingMetadata, ErrorNoSensors], conn)
      | Inr False \<Rightarrow>
     (case sensor_details e metadata of
        Inl x \<Rightarrow> (Some x, [FetchingMetadata], conn)
      | Inr details \<Rightarrow>
          (case sensor_loop e details conn of
             (evs, conn') \<Rightarrow>
               (None, FetchingMetadata # evs @ [InitialDataLoadComplete], conn')))))"

text \<open>
  The handlers of lines 106 to 114: the message and the exit code. \<^verbatim>\<open>SystemExit\<close> is not
  an \<^verbatim>\<open>Exception\<close>; no handler takes it and the process ends with its code.
\<close>

fun except_clauses :: "exn \<Rightarrow> 'f event list \<times> nat" where
  "except_clauses RequestException = ([ErrorApiRequest], 1)"
| "except_clauses Psycopg2Error = ([ErrorDatabase], 1)"
| "except_clauses (SystemExit n) = ([], n)"
| "except_clauses x = ([ErrorUnexpected x], 1)"

text \<open>
  Lines 24 to 119 from the table as it is when the script starts: what is printed, the
  exit code if the process ends here, and the table afterwards. The \<^verbatim>\<open>finally\<close> block
  closes the connection if there is one; rows not committed are lost.
\<close>

definition initial_load ::
  "'f env \<Rightarrow> 'f sensor_data list \<Rightarrow> 'f event list \<times> nat option \<times> 'f sensor_data list"
where
  "initial_load e tab =
     (if connect_insert e then
        (case load_body e \<lparr>table = tab, pending = []\<rparr> of
           (None, evs, conn) \<Rightarrow>
             (StartingInitialDataLoad # evs @ [InsertConnectionClosed], None, table conn)
         | (Some x, evs, conn) \<Rightarrow>
             (case except_clauses x of
                (hevs, code) \<Rightarrow>
                  (StartingInitialDataLoad # evs @ hevs @ [InsertConnectionClosed],
                   Some code, table conn)))
      else ([StartingInitialDataLoad, ErrorDatabase], Some 1, tab))"

subsection \<open>Reading the table back (lines 123 to 147)\<close>

text \<open>
  A row of the data frame: \<^verbatim>\<open>timestamp, measurement, sensor_id, sensor_type, unit\<close>, the
  columns of the \<^verbatim>\<open>SELECT\<close>.
\<close>

type_synonym 'f frame_row = "int \<times> 'f option \<times> string \<times> string option \<times> string option"

text \<open>In ascending order a \<^verbatim>\<open>NULL\<close> comes after every value.\<close>

definition nulls_last :: "string option \<Rightarrow> bool \<times> string" where
  "nulls_last v = (case v of None \<Rightarrow> (True, []) | Some s \<Rightarrow> (False, s))"

text \<open>\<^verbatim>\<open>ORDER BY sensor_type, sensor_id, timestamp\<close>.\<close>

definition order_by :: "'f sensor_data \<Rightarrow> (bool \<times> string) \<times> string \<times> int" where
  "order_by r = (nulls_last (sensor_type r), sensor_id r, timestamp r)"

text \<open>\<^verbatim>\<open>FROM sensor_data WHERE box_id = %s ORDER BY ...\<close>; nothing equals \<^verbatim>\<open>NULL\<close>.\<close>

definition selected :: "string option \<Rightarrow> 'f sensor_data list \<Rightarrow> 'f sensor_data list" where
  "selected box tab = sort_key order_by (filter (\<lambda>r. box = Some (box_id r)) tab)"

definition select_columns :: "'f sensor_data \<Rightarrow> 'f frame_row" where
  "select_columns r =
     (timestamp r, measurement r, sensor_id r, sensor_type r, sensor_data.unit r)"

definition query :: "string option \<Rightarrow> 'f sensor_data list \<Rightarrow> 'f frame_row list" where
  "query box tab = map select_columns (selected box tab)"

text \<open>
  Lines 123 to 147: both handlers print and leave \<^verbatim>\<open>df_all_sensors\<close> the empty frame of
  line 124.
\<close>

definition read_frame :: "'f env \<Rightarrow> 'f sensor_data list \<Rightarrow> 'f event list \<times> 'f frame_row list" where
  "read_frame e tab =
     (if connect_read e then
        if read_error e
        then ([FetchingFromDatabase, ErrorFetchingForDashboard, ReadConnectionClosed], [])
        else (case query (SENSEBOX_ID e) tab of
                df \<Rightarrow> ([FetchingFromDatabase, FetchedRecords (length df), ReadConnectionClosed], df))
      else ([ErrorFetchingForDashboard], []))"

subsection \<open>Graphs and layout (lines 153 to 196)\<close>

text \<open>
  Lines 156 and 158: a measurement that is \<^verbatim>\<open>NULL\<close> becomes \<^verbatim>\<open>NaN\<close>, and every row whose
  measurement is \<^verbatim>\<open>NaN\<close> is dropped (the timestamp column has no \<^verbatim>\<open>NULL\<close>).
\<close>

definition dropna :: "'f env \<Rightarrow> 'f frame_row list \<Rightarrow> 'f frame_row list" where
  "dropna e df =
     filter (\<lambda>(ts, m, sid, st, u). case m of None \<Rightarrow> False | Some x \<Rightarrow> \<not> float_isnan e x) df"

text \<open>How an f-string prints a text column: the text, or \<^verbatim>\<open>None\<close>.\<close>

definition py_str :: "string option \<Rightarrow> string" where
  "py_str v = (case v of None \<Rightarrow> ''None'' | Some s \<Rightarrow> s)"

record 'f figure =
  data_frame :: "'f frame_row list"
  title :: string
  label_timestamp :: string
  label_measurement :: "string option"

text \<open>
  Lines 168 to 186 for one \<open>sid\<close>: the message printed or the graph appended; \<open>st\<close>
  and \<open>u\<close> are \<^verbatim>\<open>sensor_type\<close> and \<^verbatim>\<open>unit\<close> of lines 171 and 172, read from the first
  row.
\<close>

definition sensor_graph :: "'f frame_row list \<Rightarrow> string \<Rightarrow> 'f event list \<times> 'f figure list" where
  "sensor_graph df sid =
     (case filter (\<lambda>(ts, m, sid', st, u). sid' = sid) df of
        [] \<Rightarrow> ([NoPlottableData sid], [])
      | (ts, m, sid', st, u) # rest \<Rightarrow>
          ([],
           [\<lparr>data_frame = (ts, m, sid', st, u) # rest,
             title = ''Type: '' @ py_str st @ '' (ID: '' @ sid @ '')'',
             label_timestamp = ''Time'',
             label_measurement =
               (case u of
                  None \<Rightarrow> st
                | Some text \<Rightarrow>
                    if text \<noteq> [] then Some (py_str st @ '' ('' @ text @ '')'')
                    else st)\<rparr>]))"

fun graph_loop :: "'f frame_row list \<Rightarrow> string list \<Rightarrow> 'f event list \<times> 'f figure list" where
  "graph_loop df [] = ([], [])"
| "graph_loop df (sid # sids) =
     (case sensor_graph df sid of
        (evs, gs) \<Rightarrow>
          (case graph_loop df sids of
             (evs', gs') \<Rightarrow> (evs @ evs', gs @ gs')))"

text \<open>Lines 153 to 188: the list \<^verbatim>\<open>graphs\<close>.\<close>

definition graphs :: "'f env \<Rightarrow> 'f frame_row list \<Rightarrow> 'f event list \<times> 'f figure list" where
  "graphs e df_all_sensors =
     (if df_all_sensors \<noteq> [] then
        (case dropna e df_all_sensors of
           df \<Rightarrow>
             (case unique (map (\<lambda>(ts, m, sid, st, u). sid) df) of
                unique_sensor_ids \<Rightarrow>
                  (case graph_loop df unique_sensor_ids of
                     (evs, gs) \<Rightarrow> (GeneratingGraphs unique_sensor_ids # evs, gs))))
      else ([NoDataRetrieved], []))"

text \<open>Line 195: the graphs if there are any, otherwise the paragraph saying there are none.\<close>

datatype 'f children = Graphs "'f figure list" | NoDataAvailable

definition layout :: "'f figure list \<Rightarrow> 'f children" where
  "layout gs = (if gs \<noteq> [] then Graphs gs else NoDataAvailable)"

subsection \<open>The whole script\<close>

text \<open>
  \<open>exit_code\<close> is \<open>None\<close> when the script reaches line 199 and serves the dashboard;
  \<open>app_layout\<close> is what it serves.
\<close>

record 'f run =
  printed :: "'f event list"
  exit_code :: "nat option"
  stored :: "'f sensor_data list"
  app_layout :: "'f children option"

definition app :: "'f env \<Rightarrow> 'f sensor_data list \<Rightarrow> 'f run" where
  "app e tab =
     (case initial_load e tab of
        (evs, Some code, tab') \<Rightarrow>
          \<lparr>printed = evs, exit_code = Some code, stored = tab', app_layout = None\<rparr>
      | (evs, None, tab') \<Rightarrow>
          (case read_frame e tab' of
             (evs', df) \<Rightarrow>
               (case graphs e df of
                  (evs'', gs) \<Rightarrow>
                    \<lparr>printed = evs @ evs' @ evs'', exit_code = None, stored = tab',
                     app_layout = Some (layout gs)\<rparr>)))"

subsection \<open>Notions used in the statements\<close>

text \<open>The conflict keys present in a list of rows.\<close>

definition key_set :: "'f sensor_data list \<Rightarrow> (int \<times> string \<times> string) set" where
  "key_set rows = set (map conflict_target rows)"

text \<open>
  \<open>replays c2 c1\<close> relates the connection \<open>c2\<close> of a second run to the connection \<open>c1\<close>
  of the first run at the same point of the loop: the second run has every committed
  key of the first, and whatever it holds uncommitted the first one held uncommitted
  too.
\<close>

definition replays :: "'f connection \<Rightarrow> 'f connection \<Rightarrow> bool" where
  "replays c2 c1 \<longleftrightarrow>
     key_set (pending c2) \<subseteq> key_set (pending c1) \<and>
     key_set (pending c2) \<inter> key_set (table c2) = {} \<and>
     key_set (table c1) \<subseteq> key_set (table c2)"

text \<open>The tuple an item adds to the batch, and the warning it causes.\<close>

definition tuples_of :: "'f env \<Rightarrow> 'f json \<Rightarrow> 'f details \<Rightarrow> 'f json \<Rightarrow> 'f params list" where
  "tuples_of e sid d item = (case process_item e sid d item of Appended p \<Rightarrow> [p] | _ \<Rightarrow> [])"

definition warnings_of :: "'f env \<Rightarrow> 'f json \<Rightarrow> 'f details \<Rightarrow> 'f json \<Rightarrow> 'f event list" where
  "warnings_of e sid d item =
     (case process_item e sid d item of Warned \<Rightarrow> [WarningCouldNotConvert sid item] | _ \<Rightarrow> [])"

subsection \<open>An example environment\<close>

text \<open>
  A box with three sensor entries, the second without \<^verbatim>\<open>_id\<close>, the third with nothing
  but its \<^verbatim>\<open>_id\<close>. The request for the series of sensor \<^verbatim>\<open>a\<close> fails; the series of
  sensor \<^verbatim>\<open>b\<close> has a good point, a point whose value is \<^verbatim>\<open>null\<close>, a point whose value
  is not a number and a point without timestamp. Floats are played by the reals.
\<close>

definition example_metadata :: "real json" where
  "example_metadata =
     JObj [(''name'', JStr ''Station''),
           (''sensors'', JArr [
              JObj [(''_id'', JStr ''a''), (''sensorType'', JStr ''HDC1080''),
                    (''unit'', JStr ''C''), (''icon'', JStr ''thermometer'')],
              JObj [(''sensorType'', JStr ''SDS011'')],
              JObj [(''_id'', JStr ''b'')]])]"

definition example_series :: "real json list" where
  "example_series =
     [JObj [(''createdAt'', JStr ''10:00''), (''value'', JStr ''21.5'')],
      JObj [(''createdAt'', JStr ''10:05''), (''value'', JNull)],
      JObj [(''createdAt'', JStr ''10:10''), (''value'', JStr ''abc'')],
      JObj [(''value'', JStr ''7'')]]"

definition example_float :: "string \<Rightarrow> real option" where
  "example_float s = (if s = ''21.5'' then Some 21.5 else if s = ''7'' then Some 7 else None)"

definition example_timestamptz :: "real json \<Rightarrow> int option" where
  "example_timestamptz v =
     (if v = JStr ''10:00'' then Some 600
      else if v = JStr ''10:05'' then Some 605
      else if v = JStr ''10:10'' then Some 610
      else None)"

definition example_text :: "real json \<Rightarrow> string option" where
  "example_text v = (case v of JStr s \<Rightarrow> Some s | _ \<Rightarrow> None)"

definition example :: "real env" where
  "example =
     \<lparr>SENSEBOX_ID = Some ''box1'',
      meta_response = Body example_metadata,
      data_response = (\<lambda>sid. if sid = JStr ''b'' then Body (JArr example_series) else RequestFailed),
      float_of_str = example_float,
      float_of_int = (\<lambda>n. Some (of_int n)),
      float_nonzero = (\<lambda>x. x \<noteq> 0),
      float_isnan = (\<lambda>x. False),
      key_eq = (=),
      connect_insert = True,
      timestamptz_in = example_timestamptz,
      text_in = example_text,
      exec_error = (\<lambda>sid. False),
      connect_read = True,
      read_error = False\<rparr>"

text \<open>The details \<^verbatim>\<open>sensor_details\<close> holds for sensor \<^verbatim>\<open>b\<close>, and the empty connection.\<close>

definition example_b :: "real details" where
  "example_b = \<lparr>type = JStr ''unknown'', unit = JStr '''', icon = JNull\<rparr>"

definition no_rows :: "real connection" where
  "no_rows = \<lparr>table = [], pending = []\<rparr>"

text \<open>A table with rows of two sensors of box \<^verbatim>\<open>box1\<close> and one row of another box.\<close>

definition example_table :: "real sensor_data list" where
  "example_table =
     [\<lparr>timestamp = 605, box_id = ''box1'', sensor_id = ''t'', measurement = Some 21.5,
       unit = Some ''C'', sensor_type = Some ''temperature'', icon = None\<rparr>,
      \<lparr>timestamp = 600, box_id = ''box1'', sensor_id = ''h'', measurement = Some 40,
       unit = Some [], sensor_type = Some ''humidity'', icon = None\<rparr>,
      \<lparr>timestamp = 600, box_id = ''box2'', sensor_id = ''t'', measurement = Some 3,
       unit = Some ''C'', sensor_type = Some ''temperature'', icon = None\<rparr>,
      \<lparr>timestamp = 600, box_id = ''box1'', sensor_id = ''t'', measurement = Some 21,
       unit = Some ''C'', sensor_type = Some ''temperature'', icon = None\<rparr>,
      \<lparr>timestamp = 610, box_id = ''box1'', sensor_id = ''h'', measurement = None,
       unit = Some [], sensor_type = Some ''humidity'', icon = None\<rparr>]"

section \<open>Properties\<close>

subsection \<open>The insert connection\<close>

lemma key_set_simps [simp]:
  "key_set [] = {}"
  "key_set (rows @ rows') = key_set rows \<union> key_set rows'"
  "key_set (r # rows) = insert (conflict_target r) (key_set rows)"
  by (auto simp: key_set_def)

lemma insert_query_eq:
  "insert_query e p c =
     (case sql_row e p of
        None \<Rightarrow> None
      | Some r \<Rightarrow>
          Some (if conflict_target r \<in> key_set (table c) \<union> key_set (pending c) then c
                else c\<lparr>pending := pending c @ [r]\<rparr>))"
  by (simp add: insert_query_def key_set_def split: option.splits)

lemma insert_query_None: "insert_query e p c = None \<longleftrightarrow> sql_row e p = None"
  by (simp add: insert_query_eq split: option.splits)

lemma insert_query_table: "insert_query e p c = Some c' \<Longrightarrow> table c' = table c"
  by (auto simp: insert_query_eq split: option.splits if_splits)

lemma insert_query_pending:
  "insert_query e p c = Some c' \<Longrightarrow> prefix (pending c) (pending c')"
  by (auto simp: insert_query_eq split: option.splits if_splits)

lemma executemany_table: "table (snd (executemany e ps c)) = table c"
proof (induction ps arbitrary: c)
  case Nil
  then show ?case by simp
next
  case (Cons p ps)
  show ?case
  proof (cases "insert_query e p c")
    case None
    then show ?thesis by simp
  next
    case (Some c')
    then have "table c' = table c" by (rule insert_query_table)
    with Some Cons.IH [of c'] show ?thesis by simp
  qed
qed

lemma executemany_fst:
  "fst (executemany e ps c) = (if \<forall>p\<in>set ps. sql_row e p \<noteq> None then None else Some Psycopg2Error)"
proof (induction ps arbitrary: c)
  case Nil
  then show ?case by simp
next
  case (Cons p ps)
  show ?case
  proof (cases "insert_query e p c")
    case None
    moreover from None have "sql_row e p = None" by (simp add: insert_query_None)
    ultimately show ?thesis by simp
  next
    case (Some c')
    then have "sql_row e p \<noteq> None" using insert_query_None [of e p c] by simp
    with Some Cons.IH [of c'] show ?thesis by simp
  qed
qed

lemma executemany_pending: "prefix (pending c) (pending (snd (executemany e ps c)))"
proof (induction ps arbitrary: c)
  case Nil
  then show ?case by simp
next
  case (Cons p ps)
  show ?case
  proof (cases "insert_query e p c")
    case None
    then show ?thesis by simp
  next
    case (Some c')
    then have "prefix (pending c) (pending c')" by (rule insert_query_pending)
    moreover have "prefix (pending c') (pending (snd (executemany e ps c')))" by (rule Cons.IH)
    ultimately have "prefix (pending c) (pending (snd (executemany e ps c')))"
      by (rule prefix_order.trans)
    with Some show ?thesis by simp
  qed
qed


lemma sensor_try_cases:
  obtains (raised) x evs where "\<And>c. sensor_try e sid d c = (Some x, evs, c)"
  | (nothing) evs where "\<And>c. sensor_try e sid d c = (None, evs, c)"
  | (executed) evs ps where "ps \<noteq> []"
      "\<And>c. sensor_try e sid d c =
         (case executemany e ps c of
            (Some x, c') \<Rightarrow> (Some x, evs, c')
          | (None, c') \<Rightarrow> (None, evs @ [Inserted sid (length ps)], commit c'))"
proof (cases "data_response e sid")
  case RequestFailed
  then have "\<And>c. sensor_try e sid d c = (Some RequestException, [], c)"
    by (simp add: sensor_try_def)
  then show ?thesis by (rule raised)
next
  case (Body sd)
  show ?thesis
  proof (cases "py_bool e sd")
    case False
    with Body have "\<And>c. sensor_try e sid d c = (None, [NoDataReturned sid], c)"
      by (simp add: sensor_try_def)
    then show ?thesis by (rule nothing)
  next
    case True
    show ?thesis
    proof (cases "py_iter sd")
      case (Inl x)
      with Body True have "\<And>c. sensor_try e sid d c = (Some x, [], c)"
        by (simp add: sensor_try_def)
      then show ?thesis by (rule raised)
    next
      case (Inr items)
      obtain evs r where dti: "data_to_insert e sid d items = (evs, r)"
        by (cases "data_to_insert e sid d items")
      show ?thesis
      proof (cases r)
        case (Inl x)
        with Body True Inr dti have "\<And>c. sensor_try e sid d c = (Some x, evs, c)"
          by (simp add: sensor_try_def)
        then show ?thesis by (rule raised)
      next
        case r: (Inr ps)
        show ?thesis
        proof (cases "ps = []")
          case True
          with Body \<open>py_bool e sd\<close> Inr dti r
          have "\<And>c. sensor_try e sid d c = (None, evs @ [NoValidDataPoints sid], c)"
            by (simp add: sensor_try_def)
          then show ?thesis by (rule nothing)
        next
          case False
          show ?thesis
          proof (cases "exec_error e sid")
            case True
            with Body \<open>py_bool e sd\<close> Inr dti r False
            have "\<And>c. sensor_try e sid d c = (Some Psycopg2Error, evs, c)"
              by (simp add: sensor_try_def)
            then show ?thesis by (rule raised)
          next
            case noerr: False
            with Body \<open>py_bool e sd\<close> Inr dti r False
            have "\<And>c. sensor_try e sid d c =
               (case executemany e ps c of
                  (Some x, c') \<Rightarrow> (Some x, evs, c')
                | (None, c') \<Rightarrow> (None, evs @ [Inserted sid (length ps)], commit c'))"
              by (simp add: sensor_try_def)
            with False show ?thesis by (rule executed)
          qed
        qed
      qed
    qed
  qed
qed

lemma sensor_try_exn: "fst (sensor_try e sid d c) = fst (sensor_try e sid d c')"
proof (cases rule: sensor_try_cases [of e sid d])
  case (raised x evs)
  then show ?thesis by simp
next
  case (nothing evs)
  then show ?thesis by simp
next
  case (executed evs ps)
  obtain x1 c1 where ex1: "executemany e ps c = (x1, c1)" by (cases "executemany e ps c")
  obtain x2 c2 where ex2: "executemany e ps c' = (x2, c2)" by (cases "executemany e ps c'")
  have "fst (executemany e ps c) = fst (executemany e ps c')"
    by (simp add: executemany_fst)
  with ex1 ex2 have "x1 = x2" by simp
  then show ?thesis
    by (cases x2) (simp_all add: executed(2) ex1 ex2)
qed

lemma sensor_try_table: "prefix (table c) (table (snd (snd (sensor_try e sid d c))))"
proof (cases rule: sensor_try_cases [of e sid d])
  case (raised x evs)
  then show ?thesis by simp
next
  case (nothing evs)
  then show ?thesis by simp
next
  case (executed evs ps)
  obtain x c' where ex: "executemany e ps c = (x, c')" by (cases "executemany e ps c")
  have "table c' = table c" using executemany_table [of e ps c] ex by simp
  then show ?thesis
    by (cases x) (simp_all add: executed(2) ex commit_def)
qed

lemma process_sensor_table: "prefix (table c) (table (snd (process_sensor e kd c)))"
proof -
  obtain sid d where kd: "kd = (sid, d)" by (cases kd)
  obtain x evs c' where st: "sensor_try e sid d c = (x, evs, c')"
    by (cases "sensor_try e sid d c")
  have "prefix (table c) (table c')" using sensor_try_table [of c e sid d] st by simp
  then show ?thesis
    by (simp add: process_sensor_def kd st split: option.splits exn.splits)
qed

lemma sensor_loop_Cons_snd:
  "snd (sensor_loop e (kd # kds) c) = snd (sensor_loop e kds (snd (process_sensor e kd c)))"
  by (simp split: prod.splits)

lemma sensor_loop_Cons_fst:
  "fst (sensor_loop e (kd # kds) c) =
     fst (process_sensor e kd c) @ fst (sensor_loop e kds (snd (process_sensor e kd c)))"
  by (simp split: prod.splits)

lemma sensor_loop_table: "prefix (table c) (table (snd (sensor_loop e kds c)))"
proof (induction kds arbitrary: c)
  case Nil
  then show ?case by simp
next
  case (Cons kd kds)
  have "prefix (table c) (table (snd (process_sensor e kd c)))"
    by (rule process_sensor_table)
  moreover have "prefix (table (snd (process_sensor e kd c)))
      (table (snd (sensor_loop e kds (snd (process_sensor e kd c)))))"
    by (rule Cons.IH)
  ultimately show ?case
    unfolding sensor_loop_Cons_snd by (rule prefix_order.trans)
qed


lemma key_set_prefix: "prefix rows rows' \<Longrightarrow> key_set rows \<subseteq> key_set rows'"
  by (auto simp: prefix_def)

lemma key_set_empty: "key_set rows = {} \<longleftrightarrow> rows = []"
  by (simp add: key_set_def)

lemma insert_query_replays:
  assumes "replays c2 c1"
    and "insert_query e p c1 = Some c1'" and "insert_query e p c2 = Some c2'"
  shows "replays c2' c1'"
  using assms
  by (auto simp: replays_def insert_query_eq split: option.splits if_splits)

lemma executemany_replays:
  "replays c2 c1 \<Longrightarrow> replays (snd (executemany e ps c2)) (snd (executemany e ps c1))"
proof (induction ps arbitrary: c1 c2)
  case Nil
  then show ?case by simp
next
  case (Cons p ps)
  show ?case
  proof (cases "sql_row e p")
    case None
    then have "insert_query e p c1 = None" "insert_query e p c2 = None"
      by (simp_all add: insert_query_None)
    with Cons.prems show ?thesis by simp
  next
    case (Some r)
    then obtain c1' c2' where
      q1: "insert_query e p c1 = Some c1'" and q2: "insert_query e p c2 = Some c2'"
      using insert_query_None [of e p c1] insert_query_None [of e p c2] by auto
    from Cons.prems q1 q2 have "replays c2' c1'" by (rule insert_query_replays)
    then have "replays (snd (executemany e ps c2')) (snd (executemany e ps c1'))"
      by (rule Cons.IH)
    with q1 q2 show ?thesis by simp
  qed
qed

lemma sensor_try_replays:
  assumes rep: "replays c2 c1"
    and final: "key_set (table (snd (snd (sensor_try e sid d c1)))) \<subseteq> key_set (table c2)"
  shows "table (snd (snd (sensor_try e sid d c2))) = table c2 \<and>
         replays (snd (snd (sensor_try e sid d c2))) (snd (snd (sensor_try e sid d c1)))"
proof (cases rule: sensor_try_cases [of e sid d])
  case (raised x evs)
  with rep show ?thesis by simp
next
  case (nothing evs)
  with rep show ?thesis by simp
next
  case (executed evs ps)
  obtain x1 c1' where ex1: "executemany e ps c1 = (x1, c1')" by (cases "executemany e ps c1")
  obtain x2 c2' where ex2: "executemany e ps c2 = (x2, c2')" by (cases "executemany e ps c2")
  have "fst (executemany e ps c1) = fst (executemany e ps c2)"
    by (simp add: executemany_fst)
  with ex1 ex2 have x: "x1 = x2" by simp
  have t1: "table c1' = table c1" using executemany_table [of e ps c1] ex1 by simp
  have t2: "table c2' = table c2" using executemany_table [of e ps c2] ex2 by simp
  have rep': "replays c2' c1'" using executemany_replays [OF rep, of e ps] ex1 ex2 by simp
  show ?thesis
  proof (cases x2)
    case (Some y)
    with x ex1 ex2 t2 rep' show ?thesis by (simp add: executed(2))
  next
    case None
    with x ex1 final have "key_set (table c1 @ pending c1') \<subseteq> key_set (table c2)"
      by (simp add: executed(2) commit_def t1)
    then have "key_set (pending c1') \<subseteq> key_set (table c2)" by simp
    with rep' t2 have "key_set (pending c2') = {}" by (auto simp: replays_def)
    then have empty: "pending c2' = []" by (simp add: key_set_empty)
    have "replays (commit c2') (commit c1')"
      using \<open>key_set (table c1 @ pending c1') \<subseteq> key_set (table c2)\<close> empty t1 t2
      by (simp add: replays_def commit_def)
    with None x ex1 ex2 empty t2 show ?thesis by (simp add: executed(2) commit_def)
  qed
qed

lemma process_sensor_snd:
  "snd (process_sensor e (sid, d) c) = snd (snd (sensor_try e sid d c))"
  by (simp add: process_sensor_def split: prod.splits option.splits exn.splits)

lemma sensor_loop_replays:
  "replays c2 c1 \<Longrightarrow>
   key_set (table (snd (sensor_loop e kds c1))) \<subseteq> key_set (table c2) \<Longrightarrow>
   table (snd (sensor_loop e kds c2)) = table c2"
proof (induction kds arbitrary: c1 c2)
  case Nil
  then show ?case by simp
next
  case (Cons kd kds)
  obtain sid d where kd: "kd = (sid, d)" by (cases kd)
  let ?c1 = "snd (snd (sensor_try e sid d c1))"
  let ?c2 = "snd (snd (sensor_try e sid d c2))"
  from Cons.prems(2) have final: "key_set (table (snd (sensor_loop e kds ?c1))) \<subseteq> key_set (table c2)"
    by (simp only: sensor_loop_Cons_snd kd process_sensor_snd)
  have "key_set (table ?c1) \<subseteq> key_set (table (snd (sensor_loop e kds ?c1)))"
    by (intro key_set_prefix sensor_loop_table)
  with final have "key_set (table ?c1) \<subseteq> key_set (table c2)" by blast
  with Cons.prems(1) have step: "table ?c2 = table c2 \<and> replays ?c2 ?c1"
    by (rule sensor_try_replays)
  with final have "table (snd (sensor_loop e kds ?c2)) = table ?c2"
    by (intro Cons.IH [of ?c2 ?c1]) simp_all
  with step show ?case
    by (simp only: sensor_loop_Cons_snd kd process_sensor_snd)
qed

lemma sensor_loop_twice:
  "table (snd (sensor_loop e kds \<lparr>table = table (snd (sensor_loop e kds \<lparr>table = tab, pending = []\<rparr>)), pending = []\<rparr>))
     = table (snd (sensor_loop e kds \<lparr>table = tab, pending = []\<rparr>))"
proof -
  let ?c1 = "\<lparr>table = tab, pending = []\<rparr>"
  let ?t = "table (snd (sensor_loop e kds ?c1))"
  let ?c2 = "\<lparr>table = ?t, pending = []\<rparr>"
  have "key_set tab \<subseteq> key_set ?t"
    using key_set_prefix [OF sensor_loop_table [of ?c1 e kds]] by simp
  then have "replays ?c2 ?c1" by (simp add: replays_def)
  moreover have "key_set (table (snd (sensor_loop e kds ?c1))) \<subseteq> key_set (table ?c2)" by simp
  ultimately have "table (snd (sensor_loop e kds ?c2)) = table ?c2"
    by (rule sensor_loop_replays)
  then show ?thesis by simp
qed

subsection \<open>The initial data load\<close>

lemma load_body_cases:
  obtains (stopped) x evs where "\<And>c. load_body e c = (Some x, evs, c)"
  | (looped) metadata details where
      "meta_response e = Body metadata"
      "metadata_invalid e metadata = Inr False"
      "sensor_details e metadata = Inr details"
      "\<And>c. load_body e c =
         (None, FetchingMetadata # fst (sensor_loop e details c) @ [InitialDataLoadComplete],
          snd (sensor_loop e details c))"
proof (cases "meta_response e")
  case RequestFailed
  then have "\<And>c. load_body e c = (Some RequestException, [FetchingMetadata], c)"
    by (simp add: load_body_def)
  then show ?thesis by (rule stopped)
next
  case (Body metadata)
  show ?thesis
  proof (cases "metadata_invalid e metadata")
    case (Inl x)
    with Body have "\<And>c. load_body e c = (Some x, [FetchingMetadata], c)"
      by (simp add: load_body_def)
    then show ?thesis by (rule stopped)
  next
    case (Inr b)
    show ?thesis
    proof (cases b)
      case True
      with Body Inr
      have "\<And>c. load_body e c = (Some (SystemExit 1), [FetchingMetadata, ErrorNoSensors], c)"
        by (simp add: load_body_def)
      then show ?thesis by (rule stopped)
    next
      case False
      show ?thesis
      proof (cases "sensor_details e metadata")
        case (Inl x)
        with Body Inr False have "\<And>c. load_body e c = (Some x, [FetchingMetadata], c)"
          by (simp add: load_body_def)
        then show ?thesis by (rule stopped)
      next
        case details: (Inr details)
        with Body Inr False
        have "\<And>c. load_body e c =
           (None, FetchingMetadata # fst (sensor_loop e details c) @ [InitialDataLoadComplete],
            snd (sensor_loop e details c))"
          by (simp add: load_body_def split: prod.splits)
        with Body Inr False details show ?thesis by (intro looped [of metadata details]) simp_all
      qed
    qed
  qed
qed

lemma app_stored: "stored (app e tab) = snd (snd (initial_load e tab))"
  by (simp add: app_def split: prod.splits option.splits)

lemma app_exit_code: "exit_code (app e tab) = fst (snd (initial_load e tab))"
  by (simp add: app_def split: prod.splits option.splits)

lemma initial_load_table:
  "snd (snd (initial_load e tab)) =
     (if connect_insert e then table (snd (snd (load_body e \<lparr>table = tab, pending = []\<rparr>)))
      else tab)"
  by (simp add: initial_load_def split: prod.splits option.splits)

lemma initial_load_prefix: "prefix tab (snd (snd (initial_load e tab)))"
proof (cases rule: load_body_cases [of e])
  case (stopped x evs)
  then show ?thesis by (simp add: initial_load_table)
next
  case (looped metadata details)
  then show ?thesis
    using sensor_loop_table [of "\<lparr>table = tab, pending = []\<rparr>" e details]
    by (simp add: initial_load_table)
qed

lemma initial_load_twice:
  "snd (snd (initial_load e (snd (snd (initial_load e tab))))) = snd (snd (initial_load e tab))"
proof (cases rule: load_body_cases [of e])
  case (stopped x evs)
  then show ?thesis by (simp add: initial_load_table)
next
  case (looped metadata details)
  then show ?thesis
    using sensor_loop_twice [of e details tab]
    by (simp add: initial_load_table)
qed

subsection \<open>Idempotence of the ingestion\<close>

text \<open>
  Claim C3. Running the script a second time against the same upstream data (the same
  environment) leaves the table exactly as the first run left it, so its row count
  does not change: every tuple of the second run meets the row the first run stored
  under its key \<^verbatim>\<open>(timestamp, box_id, sensor_id)\<close> and is dropped. The rows that were
  in the table before a run are still there afterwards, unchanged and in place: an
  insert never merges into or overwrites an existing row.
\<close>

theorem ingestion_idempotent:
  "stored (app e (stored (app e tab))) = stored (app e tab) \<and>
   length (stored (app e (stored (app e tab)))) = length (stored (app e tab)) \<and>
   prefix tab (stored (app e tab))"
proof -
  let ?once = "stored (app e tab)"
  have once: "?once = snd (snd (initial_load e tab))"
    by (rule app_stored)
  have "stored (app e ?once) = snd (snd (initial_load e ?once))"
    by (rule app_stored)
  also have "\<dots> = snd (snd (initial_load e (snd (snd (initial_load e tab)))))"
    by (simp only: once)
  also have "\<dots> = snd (snd (initial_load e tab))"
    by (rule initial_load_twice)
  finally have twice: "stored (app e ?once) = ?once"
    by (simp only: once)
  have kept: "prefix tab ?once"
    unfolding once by (rule initial_load_prefix)
  from twice kept show ?thesis by simp
qed

subsection \<open>Evaluating the example\<close>

lemmas example_defs = example_def example_metadata_def example_series_def example_float_def
  example_timestamptz_def example_text_def example_b_def no_rows_def

lemmas script_defs = app_def initial_load_def load_body_def metadata_invalid_def
  sensor_details_def sensor_entry_def dict_get_def process_sensor_def sensor_try_def
  process_item_def measurement_val_def insert_query_def sql_row_def sql_text_def commit_def
  conflict_target_def read_frame_def query_def selected_def order_by_def nulls_last_def
  select_columns_def graphs_def dropna_def unique_def sensor_graph_def layout_def py_str_def

text \<open>The example run stores two rows; a second run stores no third.\<close>

theorem ingestion_idempotent_witness:
  "length (stored (app example [])) = 2 \<and>
   length (stored (app example (stored (app example [])))) = 2"
proof -
  have "length (stored (app example [])) = 2"
    by (simp add: script_defs example_defs)
  with ingestion_idempotent [of example "[]"] show ?thesis by simp
qed

subsection \<open>A failing sensor and the others\<close>

lemma executemany_inserts:
  "\<forall>p\<in>set ps. sql_row e p \<noteq> None \<Longrightarrow> p \<in> set ps \<Longrightarrow> sql_row e p = Some r \<Longrightarrow>
     conflict_target r \<in> key_set (table c) \<union> key_set (pending (snd (executemany e ps c)))"
proof (induction ps arbitrary: c)
  case Nil
  then show ?case by simp
next
  case (Cons q ps)
  from Cons.prems(1) obtain c' where q: "insert_query e q c = Some c'"
    using insert_query_None [of e q c] by auto
  have t: "table c' = table c" using q by (rule insert_query_table)
  show ?case
  proof (cases "p = q")
    case True
    with q Cons.prems(3) have "conflict_target r \<in> key_set (table c) \<union> key_set (pending c')"
      by (auto simp: insert_query_eq split: if_splits)
    moreover have "key_set (pending c') \<subseteq> key_set (pending (snd (executemany e ps c')))"
      by (intro key_set_prefix executemany_pending)
    ultimately show ?thesis using q by auto
  next
    case False
    with Cons.prems have "p \<in> set ps" "\<forall>p\<in>set ps. sql_row e p \<noteq> None" by simp_all
    from Cons.IH [OF this(2) this(1) Cons.prems(3), of c'] t q show ?thesis by simp
  qed
qed


lemma process_sensor_fst:
  "fst (process_sensor e (sid, d) c) =
     FetchingData sid # fst (snd (sensor_try e sid d c)) @
       (case fst (sensor_try e sid d c) of
          None \<Rightarrow> []
        | Some RequestException \<Rightarrow> [WarningFailedToFetch sid]
        | Some x \<Rightarrow> [WarningUnexpected sid x])"
  by (simp add: process_sensor_def split: prod.splits option.splits exn.splits)


lemma sensor_loop_warns:
  assumes "fst (sensor_try e sid d c0) = Some x" and "(sid, d) \<in> set kds"
  shows "(if x = RequestException then WarningFailedToFetch sid else WarningUnexpected sid x)
           \<in> set (fst (sensor_loop e kds c))"
  using assms(2)
proof (induction kds arbitrary: c)
  case Nil
  then show ?case by simp
next
  case (Cons kd kds)
  show ?case
  proof (cases "kd = (sid, d)")
    case True
    have "fst (sensor_try e sid d c) = Some x"
      using assms(1) sensor_try_exn [of e sid d c c0] by simp
    then show ?thesis
      by (cases x) (simp_all add: True sensor_loop_Cons_fst process_sensor_fst del: sensor_loop.simps)
  next
    case False
    with Cons.prems have "(sid, d) \<in> set kds" by simp
    from Cons.IH [OF this, of "snd (process_sensor e kd c)"] show ?thesis
      by (simp add: sensor_loop_Cons_fst del: sensor_loop.simps)
  qed
qed


lemma initial_load_looped:
  assumes "connect_insert e" and "meta_response e = Body metadata"
    and "metadata_invalid e metadata = Inr False"
    and "sensor_details e metadata = Inr details"
  shows "initial_load e tab =
     (StartingInitialDataLoad # FetchingMetadata #
        fst (sensor_loop e details \<lparr>table = tab, pending = []\<rparr>) @
        [InitialDataLoadComplete, InsertConnectionClosed],
      None, table (snd (sensor_loop e details \<lparr>table = tab, pending = []\<rparr>)))"
  using assms by (simp add: initial_load_def load_body_def split: prod.splits)

lemma app_looped:
  assumes "connect_insert e" and "meta_response e = Body metadata"
    and "metadata_invalid e metadata = Inr False"
    and "sensor_details e metadata = Inr details"
  shows "exit_code (app e tab) = None"
    and "stored (app e tab) = table (snd (sensor_loop e details \<lparr>table = tab, pending = []\<rparr>))"
    and "set (fst (sensor_loop e details \<lparr>table = tab, pending = []\<rparr>)) \<subseteq> set (printed (app e tab))"
  using initial_load_looped [OF assms, of tab]
  by (auto simp: app_def split: prod.splits)




subsection \<open>Metadata without sensors, and database errors\<close>

lemma dict_get_None_iff: "dict_get kvs k = None \<longleftrightarrow> k \<notin> set (map fst kvs)"
  by (simp add: dict_get_def map_of_eq_None_iff)

lemma dict_get_Some_mem: "dict_get kvs k = Some v \<Longrightarrow> k \<in> set (map fst kvs)"
  using dict_get_None_iff [of kvs k] by auto

lemma metadata_invalid_JObj:
  "metadata_invalid e (JObj kvs) = Inr (kvs = [] \<or> ''sensors'' \<notin> set (map fst kvs))"
  by (auto simp: metadata_invalid_def)

lemma initial_load_stopped:
  fixes e :: "'f env"
  assumes "connect_insert e" and "\<And>c. load_body e c = (Some x, evs, c)"
  shows "initial_load e tab =
     (StartingInitialDataLoad # evs @ fst (except_clauses x) @ [InsertConnectionClosed],
      Some (snd (except_clauses x :: 'f event list \<times> nat)), tab)"
  using assms by (simp add: initial_load_def split_beta)

lemma app_exited:
  "fst (snd (initial_load e tab)) = Some n \<Longrightarrow>
     app e tab = \<lparr>printed = fst (initial_load e tab), exit_code = Some n,
                  stored = snd (snd (initial_load e tab)), app_layout = None\<rparr>"
  by (cases "initial_load e tab") (auto simp: app_def)

lemma sensor_graph_events:
  "ev \<in> set (fst (sensor_graph df sid)) \<Longrightarrow> ev = NoPlottableData sid"
  by (auto simp: sensor_graph_def split: list.splits)

lemma graph_loop_events:
  "ev \<in> set (fst (graph_loop df sids)) \<Longrightarrow> \<exists>sid. ev = NoPlottableData sid"
proof (induction sids)
  case Nil
  then show ?case by simp
next
  case (Cons sid sids)
  obtain evs gs where sg: "sensor_graph df sid = (evs, gs)" by (cases "sensor_graph df sid")
  obtain evs' gs' where gl: "graph_loop df sids = (evs', gs')" by (cases "graph_loop df sids")
  from Cons.prems sg gl have "ev \<in> set evs \<or> ev \<in> set evs'" by simp
  then show ?case
    using sensor_graph_events [of ev df sid] Cons.IH sg gl by auto
qed

lemma dashboard_events:
  "FetchingData sid \<notin> set (fst (read_frame e tab))"
  "FetchingData sid \<notin> set (fst (graphs e df))"
proof -
  show "FetchingData sid \<notin> set (fst (read_frame e tab))"
    by (simp add: read_frame_def)
  have "FetchingData sid \<notin> set (fst (graph_loop df' ids))" for df' :: "'a frame_row list" and ids
    using graph_loop_events [of "FetchingData sid" df' ids] by auto
  then show "FetchingData sid \<notin> set (fst (graphs e df))"
    by (simp add: graphs_def split_beta)
qed

lemma app_served:
  "fst (snd (initial_load e tab)) = None \<Longrightarrow>
     app e tab =
       \<lparr>printed = fst (initial_load e tab) @
          fst (read_frame e (snd (snd (initial_load e tab)))) @
          fst (graphs e (snd (read_frame e (snd (snd (initial_load e tab)))))),
        exit_code = None, stored = snd (snd (initial_load e tab)),
        app_layout =
          Some (layout (snd (graphs e (snd (read_frame e (snd (snd (initial_load e tab))))))))\<rparr>"
  by (cases "initial_load e tab") (auto simp: app_def split: prod.splits)

text \<open>
  The check of line 36 asks whether the field \<^verbatim>\<open>sensors\<close> is there, not whether it has
  elements. With an empty list of sensors the script goes on: the comprehension and the
  loop run over nothing, the load completes and the dashboard is served.
\<close>

theorem empty_sensors_counterexample:
  "exit_code (app (example\<lparr>meta_response := Body (JObj [(''sensors'', JArr [])])\<rparr>) []) = None \<and>
   app_layout (app (example\<lparr>meta_response := Body (JObj [(''sensors'', JArr [])])\<rparr>) [])
     = Some NoDataAvailable"
  by (simp add: script_defs example_defs)

text \<open>
  Claim C1, amended. When the metadata endpoint returns a JSON object without the
  field \<^verbatim>\<open>sensors\<close>, the process ends with exit code 1, no sensor has been processed
  and the table is as it was. When the object has the field and it is an empty list
  (and the insert connection could be opened), the process does not end there: no
  sensor is processed, the table is as it was, and the script goes on to the
  dashboard.
\<close>

theorem metadata_without_sensors:
  "(meta_response e = Body (JObj kvs) \<and> ''sensors'' \<notin> set (map fst kvs) \<longrightarrow>
      exit_code (app e tab) = Some 1 \<and> stored (app e tab) = tab \<and>
      (\<forall>sid. FetchingData sid \<notin> set (printed (app e tab)))) \<and>
   (connect_insert e \<and> meta_response e = Body (JObj kvs) \<and>
    dict_get kvs ''sensors'' = Some (JArr []) \<longrightarrow>
      exit_code (app e tab) = None \<and> stored (app e tab) = tab \<and>
      (\<forall>sid. FetchingData sid \<notin> set (printed (app e tab))))"
proof (intro conjI impI)
  assume a: "meta_response e = Body (JObj kvs) \<and> ''sensors'' \<notin> set (map fst kvs)"
  have il: "initial_load e tab =
      (if connect_insert e
       then ([StartingInitialDataLoad, FetchingMetadata, ErrorNoSensors, InsertConnectionClosed],
             Some 1, tab)
       else ([StartingInitialDataLoad, ErrorDatabase], Some 1, tab))"
    using a by (simp add: initial_load_def load_body_def metadata_invalid_JObj)
  then have "fst (snd (initial_load e tab)) = Some 1" by simp
  from app_exited [OF this] il
  show "exit_code (app e tab) = Some 1" "stored (app e tab) = tab"
    "\<forall>sid. FetchingData sid \<notin> set (printed (app e tab))"
    by (simp_all split: if_splits)
next
  assume a: "connect_insert e \<and> meta_response e = Body (JObj kvs) \<and>
    dict_get kvs ''sensors'' = Some (JArr [])"
  then have mem: "''sensors'' \<in> set (map fst kvs)" by (auto dest: dict_get_Some_mem)
  then have "kvs \<noteq> []" by auto
  with mem have inv: "metadata_invalid e (JObj kvs) = Inr False"
    by (simp add: metadata_invalid_JObj)
  have det: "sensor_details e (JObj kvs) = Inr []"
    using a by (simp add: sensor_details_def)
  have il: "initial_load e tab =
      ([StartingInitialDataLoad, FetchingMetadata, InitialDataLoadComplete, InsertConnectionClosed],
       None, tab)"
    using a inv det by (simp add: initial_load_def load_body_def)
  then have "fst (snd (initial_load e tab)) = None" by simp
  from app_served [OF this] il
  show "exit_code (app e tab) = None" "stored (app e tab) = tab"
    "\<forall>sid. FetchingData sid \<notin> set (printed (app e tab))"
    by (simp_all add: dashboard_events)
qed


theorem metadata_without_sensors_witness:
  "exit_code (app (example\<lparr>meta_response := Body (JObj [(''name'', JStr ''Station'')])\<rparr>) [])
     = Some 1 \<and>
   stored (app (example\<lparr>meta_response := Body (JObj [(''name'', JStr ''Station'')])\<rparr>) []) = [] \<and>
   exit_code (app (example\<lparr>meta_response := Body (JObj [(''sensors'', JArr [])])\<rparr>) []) = None \<and>
   stored (app (example\<lparr>meta_response := Body (JObj [(''sensors'', JArr [])])\<rparr>) []) = []"
  using
    metadata_without_sensors
      [of "example\<lparr>meta_response := Body (JObj [(''name'', JStr ''Station'')])\<rparr>"
          "[(''name'', JStr ''Station'')]" "[]"]
    metadata_without_sensors
      [of "example\<lparr>meta_response := Body (JObj [(''sensors'', JArr [])])\<rparr>"
          "[(''sensors'', JArr [])]" "[]"]
  by (simp add: example_def dict_get_def)

text \<open>
  A database error inside a sensor's \<^verbatim>\<open>try\<close> block is an \<^verbatim>\<open>Exception\<close> and is taken by
  the handler of line 101; one raised while reading for the dashboard is taken by the
  handler of line 138, which keeps the empty frame. Neither calls \<^verbatim>\<open>sys.exit\<close>.
\<close>

theorem database_errors_counterexample:
  "exit_code (app (example\<lparr>exec_error := \<lambda>sid. True\<rparr>) []) = None \<and>
   WarningUnexpected (JStr ''b'') Psycopg2Error
     \<in> set (printed (app (example\<lparr>exec_error := \<lambda>sid. True\<rparr>) [])) \<and>
   exit_code (app (example\<lparr>read_error := True\<rparr>) []) = None \<and>
   ErrorFetchingForDashboard \<in> set (printed (app (example\<lparr>read_error := True\<rparr>) []))"
  by (simp add: script_defs example_defs)

text \<open>
  Claim C2, amended. A database error raised when the insert connection is opened is
  printed and ends the process with exit code 1, the table untouched. Once the
  connection is open and the metadata is valid, no database error ends the process: a
  database error raised while the batch of a sensor is executed is printed as a
  warning for that sensor, and a database error in the dashboard read (when connecting
  or when querying) is printed and leaves the empty data frame, so that the page shows
  the paragraph that no data is available.
\<close>

theorem database_errors:
  "(\<not> connect_insert e \<longrightarrow>
      exit_code (app e tab) = Some 1 \<and> ErrorDatabase \<in> set (printed (app e tab)) \<and>
      stored (app e tab) = tab) \<and>
   (connect_insert e \<and> meta_response e = Body metadata \<and>
    metadata_invalid e metadata = Inr False \<and> sensor_details e metadata = Inr details \<longrightarrow>
      exit_code (app e tab) = None \<and>
      (\<forall>sid d. (sid, d) \<in> set details \<and> fst (sensor_try e sid d c) = Some Psycopg2Error \<longrightarrow>
         WarningUnexpected sid Psycopg2Error \<in> set (printed (app e tab))) \<and>
      (\<not> connect_read e \<or> read_error e \<longrightarrow>
         ErrorFetchingForDashboard \<in> set (printed (app e tab)) \<and>
         app_layout (app e tab) = Some NoDataAvailable))"
proof (intro conjI impI allI)
  assume "\<not> connect_insert e"
  then have il: "initial_load e tab = ([StartingInitialDataLoad, ErrorDatabase], Some 1, tab)"
    by (simp add: initial_load_def)
  then have "fst (snd (initial_load e tab)) = Some 1" by simp
  from app_exited [OF this] il
  show "exit_code (app e tab) = Some 1" "ErrorDatabase \<in> set (printed (app e tab))"
    "stored (app e tab) = tab"
    by simp_all
next
  assume a: "connect_insert e \<and> meta_response e = Body metadata \<and>
    metadata_invalid e metadata = Inr False \<and> sensor_details e metadata = Inr details"
  then have 1: "connect_insert e" and 2: "meta_response e = Body metadata"
    and 3: "metadata_invalid e metadata = Inr False"
    and 4: "sensor_details e metadata = Inr details"
    by simp_all
  note run = app_looped [OF 1 2 3 4, of tab]
  show "exit_code (app e tab) = None" by (rule run(1))
  {
    fix sid d
    assume "(sid, d) \<in> set details \<and> fst (sensor_try e sid d c) = Some Psycopg2Error"
    then have "WarningUnexpected sid Psycopg2Error
        \<in> set (fst (sensor_loop e details \<lparr>table = tab, pending = []\<rparr>))"
      using sensor_loop_warns [of e sid d c Psycopg2Error details] by simp
    with run(3) show "WarningUnexpected sid Psycopg2Error \<in> set (printed (app e tab))"
      by blast
  }
  {
    assume "\<not> connect_read e \<or> read_error e"
    then have rf: "ErrorFetchingForDashboard \<in> set (fst (read_frame e tab'))"
      "snd (read_frame e tab') = []" for tab'
      by (auto simp: read_frame_def)
    have "fst (snd (initial_load e tab)) = None"
      using initial_load_looped [OF 1 2 3 4, of tab] by simp
    from app_served [OF this] rf
    show "ErrorFetchingForDashboard \<in> set (printed (app e tab))"
      "app_layout (app e tab) = Some NoDataAvailable"
      by (simp_all add: graphs_def layout_def)
  }
qed

theorem database_errors_witness:
  "exit_code (app (example\<lparr>connect_insert := False\<rparr>) []) = Some 1 \<and>
   ErrorDatabase \<in> set (printed (app (example\<lparr>connect_insert := False\<rparr>) [])) \<and>
   exit_code (app (example\<lparr>exec_error := \<lambda>sid. True, read_error := True\<rparr>) []) = None \<and>
   WarningUnexpected (JStr ''b'') Psycopg2Error
     \<in> set (printed (app (example\<lparr>exec_error := \<lambda>sid. True, read_error := True\<rparr>) [])) \<and>
   ErrorFetchingForDashboard
     \<in> set (printed (app (example\<lparr>exec_error := \<lambda>sid. True, read_error := True\<rparr>) [])) \<and>
   app_layout (app (example\<lparr>exec_error := \<lambda>sid. True, read_error := True\<rparr>) [])
     = Some NoDataAvailable"
proof -
  let ?e = "example\<lparr>exec_error := \<lambda>sid. True, read_error := True\<rparr>"
  let ?dA = "\<lparr>type = JStr ''HDC1080'', unit = JStr ''C'', icon = JStr ''thermometer''\<rparr>"
  let ?dB = "\<lparr>type = JStr ''unknown'', unit = JStr '''', icon = JNull\<rparr> :: real details"
  let ?details = "[(JStr ''a'', ?dA), (JStr ''b'', ?dB)]"
  let ?c = "\<lparr>table = [], pending = []\<rparr> :: real connection"
  have 1: "\<not> connect_insert (example\<lparr>connect_insert := False\<rparr>)" by simp
  have 2: "connect_insert ?e \<and> meta_response ?e = Body example_metadata \<and>
      metadata_invalid ?e example_metadata = Inr False \<and>
      sensor_details ?e example_metadata = Inr ?details"
    by (simp add: script_defs example_defs)
  have 3: "(JStr ''b'', ?dB) \<in> set ?details \<and>
      fst (sensor_try ?e (JStr ''b'') ?dB ?c) = Some Psycopg2Error"
    by (simp add: script_defs example_defs)
  have 4: "\<not> connect_read ?e \<or> read_error ?e" by simp
  from database_errors [where e = "example\<lparr>connect_insert := False\<rparr>" and tab = "[]"] 1
    database_errors [where e = ?e and metadata = example_metadata and details = ?details
      and tab = "[]" and c = ?c] 2 3 4
  show ?thesis by blast
qed

subsection \<open>The sensor registry\<close>


lemma dict_set_keys:
  "(k, d) \<in> set (dict_set eq k0 d0 acc) \<Longrightarrow> k \<in> fst ` set acc \<or> k = k0"
  by (induction acc) (force split: if_splits)+

lemma sensor_entry_JObj:
  "sensor_entry s = Inr (k, d) \<Longrightarrow> \<exists>kvs. s = JObj kvs \<and> dict_get kvs ''_id'' = Some k"
  by (cases s) (auto simp: sensor_entry_def split: option.splits if_splits)


lemma comprehension_Cons:
  "comprehension e (s # ss) acc = Inr reg \<Longrightarrow>
     (py_in ''_id'' s = Inr False \<and> comprehension e ss acc = Inr reg) \<or>
     (\<exists>k d. py_in ''_id'' s = Inr True \<and> sensor_entry s = Inr (k, d) \<and>
        comprehension e ss (dict_set (key_eq e) k d acc) = Inr reg)"
  by (auto split: sum.splits bool.splits)


lemma comprehension_keys:
  "comprehension e ss acc = Inr reg \<Longrightarrow> (k, d) \<in> set reg \<Longrightarrow>
     k \<in> fst ` set acc \<or> (\<exists>s\<in>set ss. \<exists>d'. sensor_entry s = Inr (k, d'))"
proof (induction ss arbitrary: acc)
  case Nil
  then show ?case by force
next
  case (Cons s ss)
  from comprehension_Cons [OF Cons.prems(1)] show ?case
  proof (elim disjE conjE exE)
    assume "comprehension e ss acc = Inr reg"
    from Cons.IH [OF this Cons.prems(2)] show ?thesis by auto
  next
    fix k0 d0
    assume entry: "sensor_entry s = Inr (k0, d0)"
      and rest: "comprehension e ss (dict_set (key_eq e) k0 d0 acc) = Inr reg"
    from Cons.IH [OF rest Cons.prems(2)]
    have "k \<in> fst ` set (dict_set (key_eq e) k0 d0 acc) \<or>
          (\<exists>s\<in>set ss. \<exists>d'. sensor_entry s = Inr (k, d'))" .
    then show ?thesis
      using entry dict_set_keys [of k _ "key_eq e" k0 d0 acc] by fastforce
  qed
qed

lemma comprehension_skip:
  "py_in ''_id'' s = Inr False \<Longrightarrow>
     comprehension e (xs @ s # ys) acc = comprehension e (xs @ ys) acc"
  by (induction xs arbitrary: acc) (auto split: sum.splits bool.splits)

lemma sensor_details_JObj:
  "dict_get m ''sensors'' = Some (JArr ss) \<Longrightarrow>
     sensor_details e (JObj m) = comprehension e ss []"
  by (simp add: sensor_details_def)





text \<open>Nothing after line 34 reads the metadata response again.\<close>

lemma meta_response_python [simp]:
  "py_bool (e\<lparr>meta_response := r\<rparr>) v = py_bool e v"
  "py_float (e\<lparr>meta_response := r\<rparr>) v = py_float e v"
  by (cases v; simp)+

lemma meta_response_measurement [simp]:
  "measurement_val (e\<lparr>meta_response := r\<rparr>) v = measurement_val e v"
  by (simp add: measurement_val_def)

lemma meta_response_point [simp]:
  "process_item (e\<lparr>meta_response := r\<rparr>) sid d item = process_item e sid d item"
  by (simp add: process_item_def cong: sum.case_cong bool.case_cong)

lemma meta_response_points [simp]:
  "data_to_insert (e\<lparr>meta_response := r\<rparr>) sid d items = data_to_insert e sid d items"
  by (induction items) (simp_all cong: point.case_cong)

lemma meta_response_insert [simp]:
  "insert_query (e\<lparr>meta_response := r\<rparr>) p c = insert_query e p c"
  by (simp add: insert_query_def sql_row_def sql_text_def
      cong: option.case_cong prod.case_cong if_cong)

lemma meta_response_executemany [simp]:
  "executemany (e\<lparr>meta_response := r\<rparr>) ps c = executemany e ps c"
  by (induction ps arbitrary: c) (simp_all cong: option.case_cong)

lemma meta_response_sensor [simp]:
  "process_sensor (e\<lparr>meta_response := r\<rparr>) kd c = process_sensor e kd c"
  by (simp add: process_sensor_def sensor_try_def
      cong: response.case_cong sum.case_cong prod.case_cong if_cong)

lemma meta_response_loop [simp]:
  "sensor_loop (e\<lparr>meta_response := r\<rparr>) kds c = sensor_loop e kds c"
  by (induction kds arbitrary: c) (simp_all cong: prod.case_cong)

lemma meta_response_comprehension [simp]:
  "comprehension (e\<lparr>meta_response := r\<rparr>) ss acc = comprehension e ss acc"
  by (induction ss arbitrary: acc) (simp_all cong: sum.case_cong bool.case_cong prod.case_cong)

lemma meta_response_dropna [simp]:
  "dropna (e\<lparr>meta_response := r\<rparr>) df = dropna e df"
  by (simp add: dropna_def cong: option.case_cong)

lemma meta_response_dashboard [simp]:
  "read_frame (e\<lparr>meta_response := r\<rparr>) tab = read_frame e tab"
  "graphs (e\<lparr>meta_response := r\<rparr>) df = graphs e df"
  by (simp_all add: read_frame_def graphs_def)

lemma meta_response_details [simp]:
  "sensor_details (e\<lparr>meta_response := r\<rparr>) metadata = sensor_details e metadata"
  by (simp add: sensor_details_def cong: sum.case_cong)

text \<open>
  Claim C10. An object of \<^verbatim>\<open>metadata['sensors']\<close> that has no \<^verbatim>\<open>_id\<close> leaves no trace:
  \<^verbatim>\<open>sensor_details\<close> is what it would be without the object, the whole run (what is
  printed, the exit code, the table, the page) is the run on the metadata without the
  object, and every key of \<^verbatim>\<open>sensor_details\<close>, the only sensors the loop fetches,
  prepares and inserts for, is the \<^verbatim>\<open>_id\<close> of one of the other objects.
\<close>

theorem entry_without_id_ignored:
  assumes "''_id'' \<notin> set (map fst kvs)"
    and "meta_response e = Body (JObj m)"
    and "dict_get m ''sensors'' = Some (JArr (xs @ JObj kvs # ys))"
    and "dict_get m' ''sensors'' = Some (JArr (xs @ ys))"
  shows "sensor_details e (JObj m) = sensor_details e (JObj m') \<and>
         app e tab = app (e\<lparr>meta_response := Body (JObj m')\<rparr>) tab \<and>
         (\<forall>details k d. sensor_details e (JObj m) = Inr details \<and> (k, d) \<in> set details \<longrightarrow>
            (\<exists>kvs'. JObj kvs' \<in> set (xs @ ys) \<and> dict_get kvs' ''_id'' = Some k))"
proof (intro conjI allI impI)
  have skip: "py_in ''_id'' (JObj kvs) = Inr False" using assms(1) by simp
  have d: "sensor_details e (JObj m) = comprehension e (xs @ ys) []"
    using assms(3) comprehension_skip [OF skip, of e xs ys "[]"]
    by (simp add: sensor_details_JObj)
  have d': "sensor_details e (JObj m') = comprehension e (xs @ ys) []"
    using assms(4) by (simp add: sensor_details_JObj)
  from d d' show same: "sensor_details e (JObj m) = sensor_details e (JObj m')" by simp
  have inv: "metadata_invalid e (JObj m) = Inr False" "metadata_invalid e (JObj m') = Inr False"
    using dict_get_Some_mem [OF assms(3)] dict_get_Some_mem [OF assms(4)]
    by (auto simp: metadata_invalid_JObj)
  let ?e = "e\<lparr>meta_response := Body (JObj m')\<rparr>"
  have "sensor_details ?e (JObj m') = sensor_details e (JObj m')"
    by simp
  with same inv assms(2) have "load_body ?e c = load_body e c" for c
    by (simp add: load_body_def metadata_invalid_JObj cong: sum.case_cong)
  then have "initial_load ?e tab = initial_load e tab"
    by (simp add: initial_load_def)
  then show "app e tab = app ?e tab"
    by (simp add: app_def cong: prod.case_cong option.case_cong)
next
  fix details k d
  assume a: "sensor_details e (JObj m) = Inr details \<and> (k, d) \<in> set details"
  have skip: "py_in ''_id'' (JObj kvs) = Inr False" using assms(1) by simp
  have "comprehension e (xs @ ys) [] = Inr details"
    using a assms(3) comprehension_skip [OF skip, of e xs ys "[]"]
    by (simp add: sensor_details_JObj)
  from comprehension_keys [OF this, of k d] a obtain s d' where
    "s \<in> set (xs @ ys)" "sensor_entry s = Inr (k, d')"
    by auto
  with sensor_entry_JObj [of s k d']
  show "\<exists>kvs'. JObj kvs' \<in> set (xs @ ys) \<and> dict_get kvs' ''_id'' = Some k" by auto
qed

theorem entry_without_id_ignored_witness:
  "sensor_details example example_metadata =
     sensor_details example
       (JObj [(''sensors'', JArr [
          JObj [(''_id'', JStr ''a''), (''sensorType'', JStr ''HDC1080''),
                (''unit'', JStr ''C''), (''icon'', JStr ''thermometer'')],
          JObj [(''_id'', JStr ''b'')]])]) \<and>
   app example [] =
     app (example\<lparr>meta_response := Body (JObj [(''sensors'', JArr [
          JObj [(''_id'', JStr ''a''), (''sensorType'', JStr ''HDC1080''),
                (''unit'', JStr ''C''), (''icon'', JStr ''thermometer'')],
          JObj [(''_id'', JStr ''b'')]])])\<rparr>) []"
proof -
  let ?a = "JObj [(''_id'', JStr ''a''), (''sensorType'', JStr ''HDC1080''),
                  (''unit'', JStr ''C''), (''icon'', JStr ''thermometer'')] :: real json"
  let ?b = "JObj [(''_id'', JStr ''b'')] :: real json"
  let ?kvs = "[(''sensorType'', JStr ''SDS011'')] :: (string \<times> real json) list"
  let ?m = "[(''name'', JStr ''Station''), (''sensors'', JArr [?a, JObj ?kvs, ?b])]"
  let ?m' = "[(''sensors'', JArr [?a, ?b])]"
  have 1: "''_id'' \<notin> set (map fst ?kvs)" by simp
  have 2: "meta_response example = Body (JObj ?m)" by (simp add: example_defs)
  have 3: "dict_get ?m ''sensors'' = Some (JArr ([?a] @ JObj ?kvs # [?b]))"
    by (simp add: dict_get_def)
  have 4: "dict_get ?m' ''sensors'' = Some (JArr ([?a] @ [?b]))"
    by (simp add: dict_get_def)
  from entry_without_id_ignored [OF 1 2 3 4, of "[]"]
  show ?thesis by (simp add: example_metadata_def)
qed

subsection \<open>Data points\<close>

lemma process_item_JObj:
  "process_item e sid d (JObj kvs) =
     (case dict_get kvs ''createdAt'' of
        None \<Rightarrow> Skipped
      | Some ts \<Rightarrow>
     (case dict_get kvs ''value'' of
        None \<Rightarrow> Skipped
      | Some v \<Rightarrow>
     (case measurement_val e v of
        Inl x \<Rightarrow> if x = ValueError \<or> x = TypeError then Warned else Raised x
      | Inr m \<Rightarrow>
          Appended (ts, SENSEBOX_ID e, sid, m, details.unit d, details.type d, details.icon d))))"
proof (cases "dict_get kvs ''createdAt''")
  case None
  then have "''createdAt'' \<notin> set (map fst kvs)" by (simp add: dict_get_None_iff)
  with None show ?thesis by (simp add: process_item_def)
next
  case ts: (Some ts)
  then have c: "''createdAt'' \<in> set (map fst kvs)" by (rule dict_get_Some_mem)
  show ?thesis
  proof (cases "dict_get kvs ''value''")
    case None
    then have "''value'' \<notin> set (map fst kvs)" by (simp add: dict_get_None_iff)
    with None ts c show ?thesis by (simp add: process_item_def)
  next
    case (Some v)
    then have "''value'' \<in> set (map fst kvs)" by (rule dict_get_Some_mem)
    with ts c Some show ?thesis
      by (simp add: process_item_def split: sum.splits)
  qed
qed

lemma data_to_insert_Inr:
  "data_to_insert e sid d items = (evs, Inr ps) \<Longrightarrow>
     ps = concat (map (tuples_of e sid d) items) \<and>
     evs = concat (map (warnings_of e sid d) items)"
proof (induction items arbitrary: evs ps)
  case Nil
  then show ?case by simp
next
  case (Cons item items)
  obtain evs' r where rest: "data_to_insert e sid d items = (evs', r)"
    by (cases "data_to_insert e sid d items")
  show ?case
  proof (cases "process_item e sid d item")
    case (Appended p)
    with Cons.prems rest obtain ps' where "r = Inr ps'" "ps = p # ps'" "evs = evs'"
      by (cases r) auto
    with Cons.IH [of evs' ps'] rest Appended show ?thesis
      by (simp add: tuples_of_def warnings_of_def)
  next
    case Skipped
    with Cons.prems rest have "r = Inr ps" "evs = evs'" by simp_all
    with Cons.IH [of evs' ps] rest Skipped show ?thesis
      by (simp add: tuples_of_def warnings_of_def)
  next
    case Warned
    with Cons.prems rest have "r = Inr ps" "evs = WarningCouldNotConvert sid item # evs'"
      by simp_all
    with Cons.IH [of evs' ps] rest Warned show ?thesis
      by (simp add: tuples_of_def warnings_of_def)
  next
    case (Raised x)
    with Cons.prems show ?thesis by simp
  qed
qed

lemma data_to_insert_skip:
  "process_item e sid d item = Skipped \<Longrightarrow>
     data_to_insert e sid d (xs @ item # ys) = data_to_insert e sid d (xs @ ys)"
  by (induction xs) (simp_all cong: point.case_cong)

lemma data_to_insert_warn:
  "process_item e sid d item = Warned \<Longrightarrow>
     data_to_insert e sid d (xs @ item # ys) = (evs, Inr ps) \<Longrightarrow>
     snd (data_to_insert e sid d (xs @ ys)) = Inr ps"
proof (induction xs arbitrary: evs ps)
  case Nil
  then show ?case by (simp split: prod.splits)
next
  case (Cons x xs)
  obtain evs' r where rest: "data_to_insert e sid d (xs @ item # ys) = (evs', r)"
    by (cases "data_to_insert e sid d (xs @ item # ys)")
  obtain evs'' r' where rest': "data_to_insert e sid d (xs @ ys) = (evs'', r')"
    by (cases "data_to_insert e sid d (xs @ ys)")
  show ?case
  proof (cases "process_item e sid d x")
    case (Appended p)
    with Cons.prems(2) rest obtain ps' where r: "r = Inr ps'" "ps = p # ps'"
      by (cases r) auto
    with Cons.IH [OF Cons.prems(1), of evs' ps'] rest rest' Appended show ?thesis by simp
  next
    case Skipped
    with Cons.prems(2) rest have "r = Inr ps" by simp
    with Cons.IH [OF Cons.prems(1), of evs' ps] rest rest' Skipped show ?thesis by simp
  next
    case Warned
    with Cons.prems(2) rest have "r = Inr ps" by simp
    with Cons.IH [OF Cons.prems(1), of evs' ps] rest rest' Warned show ?thesis by simp
  next
    case (Raised x)
    with Cons.prems(2) show ?thesis by simp
  qed
qed

lemma length_tuples:
  "length (concat (map (tuples_of e sid d) items)) =
     length (filter (\<lambda>item. \<exists>p. process_item e sid d item = Appended p) items)"
  by (induction items) (auto simp: tuples_of_def split: point.splits)


lemma warnings_only:
  "ev \<in> set (concat (map (warnings_of e sid d) items)) \<Longrightarrow>
     \<exists>item. ev = WarningCouldNotConvert sid item"
  by (auto simp: warnings_of_def split: point.splits)

lemma sensor_try_Inserted:
  assumes "data_response e sid = Body (JArr items)"
    and "sensor_try e sid d c = (None, evs', c')"
    and "Inserted sid n \<in> set evs'"
  obtains evs ps where "data_to_insert e sid d items = (evs, Inr ps)" and "ps \<noteq> []"
    and "fst (executemany e ps c) = None" and "c' = commit (snd (executemany e ps c))"
    and "n = length ps"
proof -
  obtain evs r where dti: "data_to_insert e sid d items = (evs, r)"
    by (cases "data_to_insert e sid d items")
  from assms have nonempty: "items \<noteq> []"
    by (auto simp: sensor_try_def split: if_splits)
  with assms(1,2) dti obtain ps where r: "r = Inr ps"
    by (cases r) (auto simp: sensor_try_def)
  from data_to_insert_Inr [of e sid d items evs ps] dti r
  have evs: "evs = concat (map (warnings_of e sid d) items)" by simp
  have no: "Inserted sid n \<notin> set evs"
    using warnings_only [of "Inserted sid n" e sid d items] evs by auto
  with assms nonempty dti r have ps: "ps \<noteq> []"
    by (auto simp: sensor_try_def split: if_splits)
  obtain x c'' where ex: "executemany e ps c = (x, c'')" by (cases "executemany e ps c")
  from assms(1,2) nonempty dti r ps ex have "x = None" "c' = commit c''"
    "evs' = evs @ [Inserted sid (length ps)]"
    by (auto simp: sensor_try_def split: if_splits option.splits)
  with no assms(3) have "n = length ps" by simp
  with dti r ps ex \<open>x = None\<close> \<open>c' = commit c''\<close> show ?thesis
    by (intro that [of evs ps]) simp_all
qed

lemma executemany_rows:
  "r \<in> set (pending (snd (executemany e ps c))) \<Longrightarrow>
     r \<in> set (pending c) \<or> (\<exists>p\<in>set ps. sql_row e p = Some r)"
proof (induction ps arbitrary: c)
  case Nil
  then show ?case by simp
next
  case (Cons q ps)
  show ?case
  proof (cases "insert_query e q c")
    case None
    with Cons.prems show ?thesis by simp
  next
    case (Some c')
    with Cons.prems have "r \<in> set (pending (snd (executemany e ps c')))" by simp
    from Cons.IH [OF this]
    have "r \<in> set (pending c') \<or> (\<exists>p\<in>set ps. sql_row e p = Some r)" .
    moreover have "r \<in> set (pending c') \<Longrightarrow> r \<in> set (pending c) \<or> sql_row e q = Some r"
      using Some by (auto simp: insert_query_eq split: option.splits if_splits)
    ultimately show ?thesis by auto
  qed
qed

lemma tuples_of_mem:
  "p \<in> set (concat (map (tuples_of e sid d) items)) \<longleftrightarrow>
     (\<exists>item\<in>set items. process_item e sid d item = Appended p)"
proof -
  have "p \<in> set (tuples_of e sid d item) \<longleftrightarrow> process_item e sid d item = Appended p" for item
    by (cases "process_item e sid d item") (auto simp: tuples_of_def)
  then show ?thesis by simp
qed

text \<open>
  A point without \<^verbatim>\<open>createdAt\<close> or without \<^verbatim>\<open>value\<close> fails the test of line 68, which
  has no \<^verbatim>\<open>else\<close>: it is passed over and nothing is printed for it.
\<close>

theorem missing_field_counterexample:
  "process_item example (JStr ''b'') example_b (JObj [(''value'', JStr ''7'')]) = Skipped \<and>
   data_to_insert example (JStr ''b'') example_b [JObj [(''value'', JStr ''7'')]] = ([], Inr []) \<and>
   WarningCouldNotConvert (JStr ''b'') (JObj [(''value'', JStr ''7'')])
     \<notin> set (printed (app example []))"
  by (simp add: script_defs example_defs)

text \<open>
  Claim C5, amended. A point (a JSON object) that lacks \<^verbatim>\<open>createdAt\<close> or \<^verbatim>\<open>value\<close> is
  skipped without any message. A point that has both, whose value is not \<^verbatim>\<open>null\<close> and
  makes \<^verbatim>\<open>float\<close> raise \<^verbatim>\<open>ValueError\<close> or \<^verbatim>\<open>TypeError\<close>, is skipped with the warning of
  line 82. Either way the point adds nothing to the batch: the list handed to the
  database is the list built from the series without the point. So the number printed
  by line 93 counts the appended points only, and every row the sensor's block adds to
  the table is the row of a tuple that some point of the series appended: a rejected
  point is never stored.
\<close>

theorem rejected_points:
  "(''createdAt'' \<notin> set (map fst kvs) \<or> ''value'' \<notin> set (map fst kvs) \<longrightarrow>
      process_item e sid d (JObj kvs) = Skipped) \<and>
   (dict_get kvs ''createdAt'' = Some ts \<and> dict_get kvs ''value'' = Some v \<and> v \<noteq> JNull \<and>
    (py_float e v = Inl ValueError \<or> py_float e v = Inl TypeError) \<longrightarrow>
      process_item e sid d (JObj kvs) = Warned) \<and>
   (process_item e sid d item = Skipped \<longrightarrow>
      data_to_insert e sid d (xs @ item # ys) = data_to_insert e sid d (xs @ ys)) \<and>
   (process_item e sid d item = Warned \<and>
    data_to_insert e sid d (xs @ item # ys) = (evs, Inr ps) \<longrightarrow>
      WarningCouldNotConvert sid item \<in> set evs \<and>
      snd (data_to_insert e sid d (xs @ ys)) = Inr ps) \<and>
   (data_response e sid = Body (JArr items) \<and> sensor_try e sid d c = (None, evs', c') \<and>
    Inserted sid n \<in> set evs' \<longrightarrow>
      n = length (filter (\<lambda>item. \<exists>p. process_item e sid d item = Appended p) items) \<and>
      (\<forall>r\<in>set (table c'). r \<in> set (table c) \<or> r \<in> set (pending c) \<or>
         (\<exists>item\<in>set items. \<exists>p. process_item e sid d item = Appended p \<and>
            sql_row e p = Some r)))"
proof (intro conjI impI)
  assume "''createdAt'' \<notin> set (map fst kvs) \<or> ''value'' \<notin> set (map fst kvs)"
  then have "dict_get kvs ''createdAt'' = None \<or> dict_get kvs ''value'' = None"
    by (simp add: dict_get_None_iff)
  then show "process_item e sid d (JObj kvs) = Skipped"
    by (auto simp: process_item_JObj split: option.splits)
next
  assume "dict_get kvs ''createdAt'' = Some ts \<and> dict_get kvs ''value'' = Some v \<and> v \<noteq> JNull \<and>
    (py_float e v = Inl ValueError \<or> py_float e v = Inl TypeError)"
  then show "process_item e sid d (JObj kvs) = Warned"
    by (auto simp: process_item_JObj measurement_val_def)
next
  assume "process_item e sid d item = Skipped"
  then show "data_to_insert e sid d (xs @ item # ys) = data_to_insert e sid d (xs @ ys)"
    by (rule data_to_insert_skip)
next
  assume a: "process_item e sid d item = Warned \<and>
    data_to_insert e sid d (xs @ item # ys) = (evs, Inr ps)"
  then have "evs = concat (map (warnings_of e sid d) (xs @ item # ys))"
    using data_to_insert_Inr [of e sid d "xs @ item # ys" evs ps] by simp
  with a show "WarningCouldNotConvert sid item \<in> set evs" by (simp add: warnings_of_def)
  from a show "snd (data_to_insert e sid d (xs @ ys)) = Inr ps"
    using data_to_insert_warn [of e sid d item xs ys evs ps] by simp
next
  assume a: "data_response e sid = Body (JArr items) \<and>
    sensor_try e sid d c = (None, evs', c') \<and> Inserted sid n \<in> set evs'"
  then obtain evs0 ps0 where dti: "data_to_insert e sid d items = (evs0, Inr ps0)"
    and c': "c' = commit (snd (executemany e ps0 c))" and n: "n = length ps0"
    using sensor_try_Inserted [of e sid items d c evs' c' n] by blast
  from data_to_insert_Inr [OF dti]
  have ps0: "ps0 = concat (map (tuples_of e sid d) items)" by simp
  with n show "n = length (filter (\<lambda>item. \<exists>p. process_item e sid d item = Appended p) items)"
    by (simp add: length_tuples)
  show "\<forall>r\<in>set (table c'). r \<in> set (table c) \<or> r \<in> set (pending c) \<or>
      (\<exists>item\<in>set items. \<exists>p. process_item e sid d item = Appended p \<and> sql_row e p = Some r)"
  proof
    fix r
    assume "r \<in> set (table c')"
    with c' have "r \<in> set (table c) \<or> r \<in> set (pending (snd (executemany e ps0 c)))"
      by (auto simp: commit_def executemany_table)
    then have "r \<in> set (table c) \<or> r \<in> set (pending c) \<or> (\<exists>p\<in>set ps0. sql_row e p = Some r)"
      using executemany_rows [of r e ps0 c] by blast
    moreover have "\<exists>item\<in>set items. process_item e sid d item = Appended p"
      if "p \<in> set ps0" for p
      using that tuples_of_mem [of p e sid d items] ps0 by simp
    ultimately show "r \<in> set (table c) \<or> r \<in> set (pending c) \<or>
      (\<exists>item\<in>set items. \<exists>p. process_item e sid d item = Appended p \<and> sql_row e p = Some r)"
      by blast
  qed
qed


theorem rejected_points_witness:
  "process_item example (JStr ''b'') example_b (JObj [(''value'', JStr ''7'')]) = Skipped \<and>
   process_item example (JStr ''b'') example_b
     (JObj [(''createdAt'', JStr ''10:10''), (''value'', JStr ''abc'')]) = Warned \<and>
   data_to_insert example (JStr ''b'') example_b
       (take 3 example_series @ [JObj [(''value'', JStr ''7'')]]) =
     data_to_insert example (JStr ''b'') example_b (take 3 example_series @ []) \<and>
   snd (data_to_insert example (JStr ''b'') example_b (take 2 example_series @ [])) =
     Inr [(JStr ''10:00'', Some ''box1'', JStr ''b'', Some 21.5, JStr '''', JStr ''unknown'', JNull),
          (JStr ''10:05'', Some ''box1'', JStr ''b'', None, JStr '''', JStr ''unknown'', JNull)] \<and>
   2 = length (filter (\<lambda>item. \<exists>p. process_item example (JStr ''b'') example_b item = Appended p)
         example_series)"
proof -
  let ?late = "JObj [(''value'', JStr ''7'')] :: real json"
  let ?abc = "JObj [(''createdAt'', JStr ''10:10''), (''value'', JStr ''abc'')] :: real json"
  let ?evs = "fst (data_to_insert example (JStr ''b'') example_b (take 3 example_series))"
  let ?ps = "[(JStr ''10:00'', Some ''box1'', JStr ''b'', Some 21.5, JStr '''', JStr ''unknown'', JNull),
              (JStr ''10:05'', Some ''box1'', JStr ''b'', None, JStr '''', JStr ''unknown'', JNull)]
             :: real params list"
  note late = rejected_points [where e = example and sid = "JStr ''b''" and d = example_b
      and kvs = "[(''value'', JStr ''7'')]" and item = ?late
      and xs = "take 3 example_series" and ys = "[]"]
  note abc = rejected_points [where e = example and sid = "JStr ''b''" and d = example_b
      and kvs = "[(''createdAt'', JStr ''10:10''), (''value'', JStr ''abc'')]"
      and ts = "JStr ''10:10''" and v = "JStr ''abc''" and item = ?abc
      and xs = "take 2 example_series" and ys = "[]" and evs = ?evs and ps = ?ps
      and items = example_series and c = no_rows
      and evs' = "fst (snd (sensor_try example (JStr ''b'') example_b no_rows))"
      and c' = "snd (snd (sensor_try example (JStr ''b'') example_b no_rows))" and n = 2]
  have 1: "''createdAt'' \<notin> set (map fst [(''value'', JStr ''7'' :: real json)]) \<or>
      ''value'' \<notin> set (map fst [(''value'', JStr ''7'' :: real json)])"
    by simp
  have 2: "dict_get [(''createdAt'', JStr ''10:10''), (''value'', JStr ''abc'' :: real json)]
        ''createdAt'' = Some (JStr ''10:10'') \<and>
      dict_get [(''createdAt'', JStr ''10:10''), (''value'', JStr ''abc'' :: real json)]
        ''value'' = Some (JStr ''abc'') \<and>
      JStr ''abc'' \<noteq> (JNull :: real json) \<and>
      (py_float example (JStr ''abc'') = Inl ValueError \<or>
       py_float example (JStr ''abc'') = Inl TypeError)"
    by (simp add: dict_get_def example_defs)
  from late 1 have skipped: "process_item example (JStr ''b'') example_b ?late = Skipped"
    by blast
  from abc 2 have warned: "process_item example (JStr ''b'') example_b ?abc = Warned"
    by blast
  from late skipped have same:
    "data_to_insert example (JStr ''b'') example_b (take 3 example_series @ [?late]) =
     data_to_insert example (JStr ''b'') example_b (take 3 example_series @ [])"
    by blast
  have 4: "data_to_insert example (JStr ''b'') example_b (take 2 example_series @ [?abc])
      = (?evs, Inr ?ps)"
    by (simp add: script_defs example_defs)
  from abc warned 4 have batch:
    "snd (data_to_insert example (JStr ''b'') example_b (take 2 example_series @ [])) = Inr ?ps"
    by blast
  have 5: "data_response example (JStr ''b'') = Body (JArr example_series) \<and>
      sensor_try example (JStr ''b'') example_b no_rows =
        (None, fst (snd (sensor_try example (JStr ''b'') example_b no_rows)),
         snd (snd (sensor_try example (JStr ''b'') example_b no_rows))) \<and>
      Inserted (JStr ''b'') 2
        \<in> set (fst (snd (sensor_try example (JStr ''b'') example_b no_rows)))"
    by (simp add: script_defs example_defs)
  from abc 5 have count:
    "2 = length (filter (\<lambda>item. \<exists>p. process_item example (JStr ''b'') example_b item = Appended p)
           example_series)"
    by blast
  from skipped warned same batch count show ?thesis
    by (intro conjI)
qed

lemma sql_row_measurement:
  "sql_row e (ts, box, sid, m, u, t, i) = Some r \<Longrightarrow> measurement r = m"
  by (auto simp: sql_row_def split: option.splits if_splits)

lemma sensor_try_None:
  assumes "data_response e sid = Body (JArr items)" and "items \<noteq> []"
    and "sensor_try e sid d c = (None, evs', c')"
  obtains evs ps where "data_to_insert e sid d items = (evs, Inr ps)"
    and "ps \<noteq> [] \<Longrightarrow> fst (executemany e ps c) = None"
    and "ps \<noteq> [] \<Longrightarrow> c' = commit (snd (executemany e ps c))"
proof -
  obtain evs r where dti: "data_to_insert e sid d items = (evs, r)"
    by (cases "data_to_insert e sid d items")
  with assms obtain ps where r: "r = Inr ps"
    by (cases r) (auto simp: sensor_try_def)
  obtain x c'' where ex: "executemany e ps c = (x, c'')" by (cases "executemany e ps c")
  from assms dti r ex have "ps \<noteq> [] \<Longrightarrow> x = None \<and> c' = commit c''"
    by (auto simp: sensor_try_def split: if_splits option.splits)
  with dti r ex show ?thesis by (intro that [of evs ps]) simp_all
qed

lemma executemany_fresh:
  assumes "\<forall>q\<in>set ps. sql_row e q \<noteq> None"
    and "\<forall>q\<in>set ps. \<forall>r'. sql_row e q = Some r' \<longrightarrow> conflict_target r' = conflict_target r \<longrightarrow> r' = r"
    and "p \<in> set ps" and "sql_row e p = Some r"
    and "conflict_target r \<notin> key_set (table c) \<union> key_set (pending c) \<or> r \<in> set (pending c)"
  shows "r \<in> set (pending (snd (executemany e ps c)))"
  using assms
proof (induction ps arbitrary: c)
  case Nil
  then show ?case by simp
next
  case (Cons q ps)
  from Cons.prems(1) obtain r0 where r0: "sql_row e q = Some r0" by auto
  let ?c = "if conflict_target r0 \<in> key_set (table c) \<union> key_set (pending c) then c
            else c\<lparr>pending := pending c @ [r0]\<rparr>"
  have q: "insert_query e q c = Some ?c" using r0 by (simp add: insert_query_eq)
  have same: "conflict_target r0 = conflict_target r \<Longrightarrow> r0 = r"
    using Cons.prems(2) r0 by simp
  have inv: "r \<in> set (pending ?c) \<or>
      (conflict_target r \<notin> key_set (table ?c) \<union> key_set (pending ?c) \<and> p \<in> set ps)"
    using Cons.prems(3,4,5) r0 same by (cases "p = q") auto
  show ?case
  proof (cases "r \<in> set (pending ?c)")
    case True
    moreover have "set (pending ?c) \<subseteq> set (pending (snd (executemany e ps ?c)))"
      using executemany_pending [of ?c e ps] by (rule set_mono_prefix)
    ultimately show ?thesis using q by auto
  next
    case False
    with inv have "conflict_target r \<notin> key_set (table ?c) \<union> key_set (pending ?c)" "p \<in> set ps"
      by simp_all
    with Cons.prems(1,2,4) have "r \<in> set (pending (snd (executemany e ps ?c)))"
      by (intro Cons.IH) simp_all
    with q show ?thesis by simp
  qed
qed

text \<open>
  Claim C6. A point with a timestamp whose value is the literal \<^verbatim>\<open>null\<close> is not
  rejected: the loop appends the tuple \<open>p\<close> with \<^verbatim>\<open>None\<close> as its measurement, and \<open>p\<close> is
  in the finished batch. When the block of the sensor completes, the database has made
  of \<open>p\<close> a row whose measurement is \<^verbatim>\<open>NULL\<close>, and the table holds a row under the key of
  that row; it is this very row when the key was not taken before and no other point of
  the series gives a different row for the same key (otherwise the first write under
  the key stays).
\<close>

theorem null_value_kept:
  assumes "dict_get kvs ''createdAt'' = Some ts" and "dict_get kvs ''value'' = Some JNull"
    and "p = (ts, SENSEBOX_ID e, sid, None, details.unit d, details.type d, details.icon d)"
  shows "process_item e sid d (JObj kvs) = Appended p \<and>
     (data_to_insert e sid d (xs @ JObj kvs # ys) = (evs, Inr ps) \<longrightarrow> p \<in> set ps) \<and>
     (data_response e sid = Body (JArr items) \<and> JObj kvs \<in> set items \<and>
      sensor_try e sid d c = (None, evs', c') \<longrightarrow>
        (\<exists>r. sql_row e p = Some r \<and> measurement r = None \<and>
           conflict_target r \<in> key_set (table c')) \<and>
        (\<forall>r. sql_row e p = Some r \<and>
           conflict_target r \<notin> key_set (table c) \<union> key_set (pending c) \<and>
           (\<forall>item\<in>set items. \<forall>p' r'.
              process_item e sid d item = Appended p' \<and> sql_row e p' = Some r' \<and>
              conflict_target r' = conflict_target r \<longrightarrow> r' = r) \<longrightarrow>
           r \<in> set (table c')))"
proof (intro conjI impI)
  show kept: "process_item e sid d (JObj kvs) = Appended p"
    using assms by (simp add: process_item_JObj measurement_val_def)
  {
    assume "data_to_insert e sid d (xs @ JObj kvs # ys) = (evs, Inr ps)"
    from data_to_insert_Inr [OF this]
    have "ps = concat (map (tuples_of e sid d) (xs @ JObj kvs # ys))" by simp
    then show "p \<in> set ps" using kept by (simp add: tuples_of_def)
  }
  assume a: "data_response e sid = Body (JArr items) \<and> JObj kvs \<in> set items \<and>
      sensor_try e sid d c = (None, evs', c')"
  then have "items \<noteq> []" by auto
  with a obtain evs0 ps0 where dti: "data_to_insert e sid d items = (evs0, Inr ps0)"
    and ex: "ps0 \<noteq> [] \<Longrightarrow> fst (executemany e ps0 c) = None"
    and c': "ps0 \<noteq> [] \<Longrightarrow> c' = commit (snd (executemany e ps0 c))"
    using sensor_try_None [of e sid items d c evs' c'] by blast
  from data_to_insert_Inr [OF dti]
  have ps0: "ps0 = concat (map (tuples_of e sid d) items)" by simp
  with a kept have mem: "p \<in> set ps0" using tuples_of_mem [of p e sid d items] by auto
  then have "ps0 \<noteq> []" by auto
  note ex = ex [OF this] and c' = c' [OF this]
  from ex have all: "\<forall>q\<in>set ps0. sql_row e q \<noteq> None"
    by (simp add: executemany_fst split: if_splits)
  with mem obtain r where r: "sql_row e p = Some r" by auto
  have tab: "key_set (table c') = key_set (table c) \<union> key_set (pending (snd (executemany e ps0 c)))"
    by (simp add: c' commit_def executemany_table)
  have "measurement r = None" using r assms(3) sql_row_measurement [of e] by simp
  moreover have "conflict_target r \<in> key_set (table c')"
    using executemany_inserts [OF all mem r, of c] tab by simp
  ultimately show "\<exists>r. sql_row e p = Some r \<and> measurement r = None \<and>
      conflict_target r \<in> key_set (table c')"
    using r by blast
  show "\<forall>r. sql_row e p = Some r \<and>
      conflict_target r \<notin> key_set (table c) \<union> key_set (pending c) \<and>
      (\<forall>item\<in>set items. \<forall>p' r'.
         process_item e sid d item = Appended p' \<and> sql_row e p' = Some r' \<and>
         conflict_target r' = conflict_target r \<longrightarrow> r' = r) \<longrightarrow>
      r \<in> set (table c')"
  proof (intro allI impI)
    fix r
    assume b: "sql_row e p = Some r \<and>
      conflict_target r \<notin> key_set (table c) \<union> key_set (pending c) \<and>
      (\<forall>item\<in>set items. \<forall>p' r'.
         process_item e sid d item = Appended p' \<and> sql_row e p' = Some r' \<and>
         conflict_target r' = conflict_target r \<longrightarrow> r' = r)"
    have uniq: "\<forall>q\<in>set ps0. \<forall>r'. sql_row e q = Some r' \<longrightarrow>
        conflict_target r' = conflict_target r \<longrightarrow> r' = r"
    proof (intro ballI allI impI)
      fix q r'
      assume "q \<in> set ps0" "sql_row e q = Some r'" "conflict_target r' = conflict_target r"
      moreover from \<open>q \<in> set ps0\<close> obtain item where
        "item \<in> set items" "process_item e sid d item = Appended q"
        using tuples_of_mem [of q e sid d items] ps0 by auto
      ultimately show "r' = r" using b by blast
    qed
    from b have "r \<in> set (pending (snd (executemany e ps0 c)))"
      by (intro executemany_fresh [OF all uniq mem]) simp_all
    then show "r \<in> set (table c')" by (simp add: c' commit_def)
  qed
qed


theorem null_value_kept_witness:
  "process_item example (JStr ''b'') example_b
     (JObj [(''createdAt'', JStr ''10:05''), (''value'', JNull)]) =
     Appended (JStr ''10:05'', Some ''box1'', JStr ''b'', None, JStr '''', JStr ''unknown'', JNull) \<and>
   \<lparr>timestamp = 605, box_id = ''box1'', sensor_id = ''b'', measurement = None,
    unit = Some [], sensor_type = Some ''unknown'', icon = None\<rparr>
     \<in> set (table (snd (snd (sensor_try example (JStr ''b'') example_b no_rows))))"
proof -
  let ?kvs = "[(''createdAt'', JStr ''10:05''), (''value'', JNull)] :: (string \<times> real json) list"
  let ?p = "(JStr ''10:05'', Some ''box1'', JStr ''b'', None, JStr '''', JStr ''unknown'', JNull)
            :: real params"
  let ?r = "\<lparr>timestamp = 605, box_id = ''box1'', sensor_id = ''b'', measurement = None,
             unit = Some [], sensor_type = Some ''unknown'', icon = None\<rparr> :: real sensor_data"
  let ?evs = "fst (snd (sensor_try example (JStr ''b'') example_b no_rows))"
  let ?c = "snd (snd (sensor_try example (JStr ''b'') example_b no_rows))"
  have 1: "dict_get ?kvs ''createdAt'' = Some (JStr ''10:05'')" by (simp add: dict_get_def)
  have 2: "dict_get ?kvs ''value'' = Some JNull" by (simp add: dict_get_def)
  have 3: "?p = (JStr ''10:05'', SENSEBOX_ID example, JStr ''b'', None,
      details.unit example_b, details.type example_b, details.icon example_b)"
    by (simp add: example_defs)
  note kept = null_value_kept [OF 1 2 3, where items = example_series and c = no_rows
      and evs' = ?evs and c' = ?c]
  have 4: "data_response example (JStr ''b'') = Body (JArr example_series) \<and>
      JObj ?kvs \<in> set example_series \<and>
      sensor_try example (JStr ''b'') example_b no_rows = (None, ?evs, ?c)"
    by (simp add: script_defs example_defs)
  have 5: "sql_row example ?p = Some ?r \<and>
      conflict_target ?r \<notin> key_set (table no_rows) \<union> key_set (pending no_rows) \<and>
      (\<forall>item\<in>set example_series. \<forall>p' r'.
         process_item example (JStr ''b'') example_b item = Appended p' \<and>
         sql_row example p' = Some r' \<and> conflict_target r' = conflict_target ?r \<longrightarrow> r' = ?r)"
    by (auto simp: script_defs example_defs)
  from kept 4 5 show ?thesis by blast
qed

subsection \<open>The dashboard query\<close>

lemma order_by_le:
  "order_by r \<le> order_by s \<longleftrightarrow>
     nulls_last (sensor_type r) < nulls_last (sensor_type s) \<or>
     (sensor_type r = sensor_type s \<and>
      (sensor_id r < sensor_id s \<or> (sensor_id r = sensor_id s \<and> timestamp r \<le> timestamp s)))"
  by (auto simp: order_by_def nulls_last_def split: option.splits)

lemma order_by_inj:
  "order_by r = order_by s \<Longrightarrow> box_id r = box_id s \<Longrightarrow> conflict_target r = conflict_target s"
  by (simp add: order_by_def conflict_target_def)

lemma selected_mset:
  "mset (selected box tab) = filter_mset (\<lambda>r. box = Some (box_id r)) (mset tab)"
  by (simp add: selected_def)

lemma selected_sorted: "sorted (map order_by (selected box tab))"
  by (simp add: selected_def)

lemma selected_strict:
  assumes "distinct (map conflict_target tab)"
  shows "sorted_wrt (\<lambda>r s. order_by r < order_by s) (selected box tab)"
proof -
  let ?rows = "filter (\<lambda>r. box = Some (box_id r)) tab"
  from assms have d: "distinct tab" and inj: "inj_on conflict_target (set tab)"
    by (simp_all add: distinct_map)
  have "inj_on order_by (set ?rows)"
  proof (rule inj_onI)
    fix r s
    assume r: "r \<in> set ?rows" and s: "s \<in> set ?rows" and eq: "order_by r = order_by s"
    then have "box_id r = box_id s" by auto
    with eq have "conflict_target r = conflict_target s" by (rule order_by_inj)
    with inj r s show "r = s" by (auto dest: inj_onD)
  qed
  moreover have "distinct ?rows" using d by simp
  ultimately have "distinct (map order_by ?rows)" by (simp add: distinct_map)
  then have "distinct (map order_by (selected box tab))"
    by (simp add: selected_def distinct_map)
  with selected_sorted [of box tab] have "sorted_wrt (<) (map order_by (selected box tab))"
    by (simp add: strict_sorted_iff)
  then show ?thesis by (simp add: sorted_wrt_map)
qed


text \<open>
  Claim C9. The read of the presentation phase returns the columns of exactly the rows
  of the table whose \<^verbatim>\<open>box_id\<close> is the configured \<^verbatim>\<open>SENSEBOX_ID\<close>, each as often as it
  is in the table, sorted by sensor type first, then by sensor id, then by timestamp
  (a \<^verbatim>\<open>NULL\<close> sensor type comes last; texts compare character by character). When the
  table satisfies its unique constraint no two rows of the result agree on all three,
  so the order is strict and the result is determined. This is the frame the script
  works with whenever the read connection opens and the query does not raise.
\<close>

theorem dashboard_query_ordered:
  "query box tab = map select_columns (selected box tab) \<and>
   mset (selected box tab) = filter_mset (\<lambda>r. box = Some (box_id r)) (mset tab) \<and>
   sorted_wrt
     (\<lambda>r s. nulls_last (sensor_type r) < nulls_last (sensor_type s) \<or>
        (sensor_type r = sensor_type s \<and>
         (sensor_id r < sensor_id s \<or>
          (sensor_id r = sensor_id s \<and> timestamp r \<le> timestamp s))))
     (selected box tab) \<and>
   (distinct (map conflict_target tab) \<longrightarrow>
      sorted_wrt (\<lambda>r s. order_by r < order_by s) (selected box tab)) \<and>
   (connect_read e \<and> \<not> read_error e \<longrightarrow>
      snd (read_frame e tab) = query (SENSEBOX_ID e) tab)"
proof (intro conjI impI)
  show "query box tab = map select_columns (selected box tab)"
    by (simp add: query_def)
  show "mset (selected box tab) = filter_mset (\<lambda>r. box = Some (box_id r)) (mset tab)"
    by (rule selected_mset)
  have "sorted_wrt (\<lambda>r s. order_by r \<le> order_by s) (selected box tab)"
    using selected_sorted [of box tab] by (simp add: sorted_map)
  then show "sorted_wrt
     (\<lambda>r s. nulls_last (sensor_type r) < nulls_last (sensor_type s) \<or>
        (sensor_type r = sensor_type s \<and>
         (sensor_id r < sensor_id s \<or>
          (sensor_id r = sensor_id s \<and> timestamp r \<le> timestamp s))))
     (selected box tab)"
    by (simp add: order_by_le)
next
  assume "distinct (map conflict_target tab)"
  then show "sorted_wrt (\<lambda>r s. order_by r < order_by s) (selected box tab)"
    by (rule selected_strict)
next
  assume "connect_read e \<and> \<not> read_error e"
  then show "snd (read_frame e tab) = query (SENSEBOX_ID e) tab"
    by (simp add: read_frame_def)
qed

theorem dashboard_query_ordered_witness:
  "sorted_wrt (\<lambda>r s. order_by r < order_by s) (selected (Some ''box1'') example_table) \<and>
   snd (read_frame example example_table) = query (Some ''box1'') example_table \<and>
   query (Some ''box1'') example_table =
     [(600, Some 40, ''h'', Some ''humidity'', Some []),
      (610, None, ''h'', Some ''humidity'', Some []),
      (600, Some 21, ''t'', Some ''temperature'', Some ''C''),
      (605, Some 21.5, ''t'', Some ''temperature'', Some ''C'')]"
proof -
  have 1: "distinct (map conflict_target example_table)"
    by (simp add: example_table_def conflict_target_def)
  have 2: "connect_read example \<and> \<not> read_error example" by (simp add: example_def)
  have 3: "SENSEBOX_ID example = Some ''box1''" by (simp add: example_def)
  have 4: "selected (Some ''box1'') example_table =
     [\<lparr>timestamp = 600, box_id = ''box1'', sensor_id = ''h'', measurement = Some 40,
       unit = Some [], sensor_type = Some ''humidity'', icon = None\<rparr>,
      \<lparr>timestamp = 610, box_id = ''box1'', sensor_id = ''h'', measurement = None,
       unit = Some [], sensor_type = Some ''humidity'', icon = None\<rparr>,
      \<lparr>timestamp = 600, box_id = ''box1'', sensor_id = ''t'', measurement = Some 21,
       unit = Some ''C'', sensor_type = Some ''temperature'', icon = None\<rparr>,
      \<lparr>timestamp = 605, box_id = ''box1'', sensor_id = ''t'', measurement = Some 21.5,
       unit = Some ''C'', sensor_type = Some ''temperature'', icon = None\<rparr>]"
    by (simp add: selected_def example_table_def order_by_def nulls_last_def)
  from dashboard_query_ordered [of "Some ''box1''" example_table example] 1 2 3
  have "sorted_wrt (\<lambda>r s. order_by r < order_by s) (selected (Some ''box1'') example_table)"
    and "snd (read_frame example example_table) = query (Some ''box1'') example_table"
    and "query (Some ''box1'') example_table =
      map select_columns (selected (Some ''box1'') example_table)"
    by simp_all
  then show ?thesis by (simp add: 4 select_columns_def)
qed

subsection \<open>Graphs\<close>

lemma unique_from_set: "set (unique_from seen xs) = set xs - set seen"
  by (induction xs arbitrary: seen) auto

lemma unique_from_distinct: "distinct (unique_from seen xs)"
  by (induction xs arbitrary: seen) (auto simp: unique_from_set)

lemma unique_set: "set (unique xs) = set xs"
  by (simp add: unique_def unique_from_set)

lemma unique_distinct: "distinct (unique xs)"
  by (simp add: unique_def unique_from_distinct)

lemma graph_loop_all2:
  assumes "\<And>sid. sid \<in> set ids \<Longrightarrow> \<exists>g. sensor_graph df sid = ([], [g]) \<and> P sid g"
  shows "list_all2 P ids (snd (graph_loop df ids))"
  using assms
proof (induction ids)
  case Nil
  then show ?case by simp
next
  case (Cons sid ids)
  from Cons.prems [of sid] obtain g where g: "sensor_graph df sid = ([], [g])" "P sid g"
    by auto
  have "list_all2 P ids (snd (graph_loop df ids))"
    by (rule Cons.IH) (simp add: Cons.prems)
  with g show ?case by (cases "graph_loop df ids") simp
qed

lemma graphs_snd:
  "snd (graphs e df) =
     snd (graph_loop (dropna e df) (unique (map (\<lambda>(ts, m, sid, st, u). sid) (dropna e df))))"
  by (simp add: graphs_def dropna_def unique_def split: prod.splits)

lemma sensor_graph_first:
  assumes "sid \<in> set (map (\<lambda>(ts, m, sid, st, u). sid) df)"
  shows "\<exists>g ts m st u rest.
     sensor_graph df sid = ([], [g]) \<and>
     filter (\<lambda>(ts, m, sid', st, u). sid' = sid) df = (ts, m, sid, st, u) # rest \<and>
     data_frame g = (ts, m, sid, st, u) # rest \<and>
     title g = ''Type: '' @ py_str st @ '' (ID: '' @ sid @ '')'' \<and>
     label_timestamp g = ''Time'' \<and>
     label_measurement g =
       (case u of
          None \<Rightarrow> st
        | Some text \<Rightarrow> if text \<noteq> [] then Some (py_str st @ '' ('' @ text @ '')'') else st)"
proof -
  from assms have "filter (\<lambda>(ts, m, sid', st, u). sid' = sid) df \<noteq> []"
    by (force simp: filter_empty_conv)
  then obtain row rest where f: "filter (\<lambda>(ts, m, sid', st, u). sid' = sid) df = row # rest"
    by (cases "filter (\<lambda>(ts, m, sid', st, u). sid' = sid) df") auto
  have "set (row # rest) \<subseteq> {row. (\<lambda>(ts, m, sid', st, u). sid' = sid) row}"
    unfolding f [symmetric] by auto
  then have "(\<lambda>(ts, m, sid', st, u). sid' = sid) row" by simp
  then obtain ts m st u where row: "row = (ts, m, sid, st, u)" by (cases row) auto
  show ?thesis
    using f row by (simp add: sensor_graph_def)
qed


text \<open>
  Claim C8. Let the cleaned frame be what \<^verbatim>\<open>dropna\<close> leaves of the frame read. The list
  \<^verbatim>\<open>graphs\<close> has exactly one graph for each distinct sensor id of the cleaned frame, in
  the order of their first rows: the ids are pairwise different, they are the ids
  that occur in the cleaned frame, and graph and id correspond one to one. The graph
  of a sensor plots the rows of that sensor; its title is made of the sensor type of
  the first of these rows and of the sensor id; the label of its y axis is type and
  unit when the unit of that row is a non-empty text, and the type alone otherwise.
  When nothing is left after cleaning the page shows the paragraph that no data is
  available; otherwise it shows the graphs. This is the page of every run that
  reaches the dashboard.
\<close>

theorem one_graph_per_sensor:
  "distinct (unique (map (\<lambda>(ts, m, sid, st, u). sid) (dropna e df))) \<and>
   set (unique (map (\<lambda>(ts, m, sid, st, u). sid) (dropna e df))) =
     set (map (\<lambda>(ts, m, sid, st, u). sid) (dropna e df)) \<and>
   list_all2
     (\<lambda>sid g. \<exists>ts m st u rest.
        filter (\<lambda>(ts, m, sid', st, u). sid' = sid) (dropna e df) = (ts, m, sid, st, u) # rest \<and>
        data_frame g = (ts, m, sid, st, u) # rest \<and>
        title g = ''Type: '' @ py_str st @ '' (ID: '' @ sid @ '')'' \<and>
        (\<forall>text. u = Some text \<and> text \<noteq> [] \<longrightarrow>
           label_measurement g = Some (py_str st @ '' ('' @ text @ '')'')) \<and>
        (u = None \<or> u = Some [] \<longrightarrow> label_measurement g = st))
     (unique (map (\<lambda>(ts, m, sid, st, u). sid) (dropna e df)))
     (snd (graphs e df)) \<and>
   (dropna e df = [] \<longrightarrow> layout (snd (graphs e df)) = NoDataAvailable) \<and>
   (dropna e df \<noteq> [] \<longrightarrow>
      snd (graphs e df) \<noteq> [] \<and> layout (snd (graphs e df)) = Graphs (snd (graphs e df))) \<and>
   (exit_code (app e tab) = None \<longrightarrow>
      app_layout (app e tab) =
        Some (layout (snd (graphs e (snd (read_frame e (stored (app e tab))))))))"
proof -
  let ?df = "dropna e df"
  let ?ids = "unique (map (\<lambda>(ts, m, sid, st, u). sid) ?df)"
  let ?P = "\<lambda>sid g. \<exists>ts m st u rest.
        filter (\<lambda>(ts, m, sid', st, u). sid' = sid) ?df = (ts, m, sid, st, u) # rest \<and>
        data_frame g = (ts, m, sid, st, u) # rest \<and>
        title g = ''Type: '' @ py_str st @ '' (ID: '' @ sid @ '')'' \<and>
        (\<forall>text. u = Some text \<and> text \<noteq> [] \<longrightarrow>
           label_measurement g = Some (py_str st @ '' ('' @ text @ '')'')) \<and>
        (u = None \<or> u = Some [] \<longrightarrow> label_measurement g = st)"
  have ids: "distinct ?ids" "set ?ids = set (map (\<lambda>(ts, m, sid, st, u). sid) ?df)"
    by (simp_all add: unique_distinct unique_set)
  have one: "\<exists>g. sensor_graph ?df sid = ([], [g]) \<and> ?P sid g" if "sid \<in> set ?ids" for sid
  proof -
    from that ids(2) have "sid \<in> set (map (\<lambda>(ts, m, sid, st, u). sid) ?df)" by simp
    from sensor_graph_first [OF this] obtain g ts m st u rest where
      g: "sensor_graph ?df sid = ([], [g])"
      and f: "filter (\<lambda>(ts, m, sid', st, u). sid' = sid) ?df = (ts, m, sid, st, u) # rest"
      and d: "data_frame g = (ts, m, sid, st, u) # rest"
      and t: "title g = ''Type: '' @ py_str st @ '' (ID: '' @ sid @ '')''"
      and l: "label_measurement g =
        (case u of
           None \<Rightarrow> st
         | Some text \<Rightarrow> if text \<noteq> [] then Some (py_str st @ '' ('' @ text @ '')'') else st)"
      by blast
    from l have "\<forall>text. u = Some text \<and> text \<noteq> [] \<longrightarrow>
        label_measurement g = Some (py_str st @ '' ('' @ text @ '')'')"
      and "u = None \<or> u = Some [] \<longrightarrow> label_measurement g = st"
      by auto
    with g f d t show ?thesis by blast
  qed
  have all2: "list_all2 ?P ?ids (snd (graphs e df))"
    unfolding graphs_snd using one by (rule graph_loop_all2)
  then have len: "length (snd (graphs e df)) = length ?ids"
    by (simp add: list_all2_lengthD)
  have "set ?ids = {} \<longleftrightarrow> set (map (\<lambda>(ts, m, sid, st, u). sid) ?df) = {}"
    by (simp only: ids(2))
  then have empty: "?ids = [] \<longleftrightarrow> ?df = []" by simp
  have "snd (graphs e df) = [] \<longleftrightarrow> ?ids = []"
    using len by (simp only: length_0_conv [symmetric])
  with empty have gs: "snd (graphs e df) = [] \<longleftrightarrow> ?df = []" by simp
  have lay: "exit_code (app e tab) = None \<longrightarrow>
      app_layout (app e tab) =
        Some (layout (snd (graphs e (snd (read_frame e (stored (app e tab)))))))"
  proof
    assume "exit_code (app e tab) = None"
    then have "fst (snd (initial_load e tab)) = None" by (simp add: app_exit_code)
    from app_served [OF this] show "app_layout (app e tab) =
        Some (layout (snd (graphs e (snd (read_frame e (stored (app e tab)))))))"
      by simp
  qed
  have none: "?df = [] \<longrightarrow> layout (snd (graphs e df)) = NoDataAvailable"
    using gs by (simp add: layout_def)
  have some: "?df \<noteq> [] \<longrightarrow>
      snd (graphs e df) \<noteq> [] \<and> layout (snd (graphs e df)) = Graphs (snd (graphs e df))"
    using gs by (simp add: layout_def)
  from ids(1) ids(2) all2 none some lay show ?thesis by (intro conjI)
qed

theorem one_graph_per_sensor_witness:
  "length (snd (graphs example (query (Some ''box1'') example_table))) = 2 \<and>
   layout (snd (graphs example (query (Some ''box1'') example_table))) =
     Graphs (snd (graphs example (query (Some ''box1'') example_table))) \<and>
   map title (snd (graphs example (query (Some ''box1'') example_table))) =
     [''Type: humidity (ID: h)'', ''Type: temperature (ID: t)''] \<and>
   map label_measurement (snd (graphs example (query (Some ''box1'') example_table))) =
     [Some ''humidity'', Some ''temperature (C)'']"
proof -
  let ?df = "query (Some ''box1'') example_table"
  have q: "?df =
     [(600, Some 40, ''h'', Some ''humidity'', Some []),
      (610, None, ''h'', Some ''humidity'', Some []),
      (600, Some 21, ''t'', Some ''temperature'', Some ''C''),
      (605, Some 21.5, ''t'', Some ''temperature'', Some ''C'')]"
    by (simp add: query_def select_columns_def selected_def example_table_def order_by_def
        nulls_last_def)
  have 1: "dropna example ?df \<noteq> []" by (simp add: q dropna_def example_def)
  have 2: "unique (map (\<lambda>(ts, m, sid, st, u). sid) (dropna example ?df)) = [''h'', ''t'']"
    by (simp add: q dropna_def example_def unique_def)
  note graphs = one_graph_per_sensor [of example ?df "[]"]
  note some = graphs [THEN conjunct2, THEN conjunct2, THEN conjunct2, THEN conjunct2,
      THEN conjunct1, rule_format, OF 1]
  note all2 = graphs [THEN conjunct2, THEN conjunct2, THEN conjunct1, unfolded 2]
  from some have "layout (snd (graphs example ?df)) = Graphs (snd (graphs example ?df))"
    by (rule conjunct2)
  moreover from all2 have "length (snd (graphs example ?df)) = 2"
    by (simp add: list_all2_lengthD [symmetric])
  moreover have "map title (snd (graphs example ?df)) =
      [''Type: humidity (ID: h)'', ''Type: temperature (ID: t)'']"
    "map label_measurement (snd (graphs example ?df)) =
      [Some ''humidity'', Some ''temperature (C)'']"
    by (simp_all add: q graphs_def dropna_def unique_def sensor_graph_def py_str_def example_def)
  ultimately show ?thesis by (intro conjI)
qed

end
